theory Spec2Isabelle
  imports Complex_Main "HOL-Library.Char_ord" "HOL-Library.List_Lexorder" "HOL-Library.Sublist"
    "HOL-Library.AList"
begin

section \<open>Values, errors and the outside world\<close>

text \<open>
  The bootstrap script \<^verbatim>\<open>dl_cfn_setup_v2.py\<close> talks to a message queue, to the
  fleet directory, to the instance metadata service and to the wall clock. The model
  passes one record, the \<open>world\<close>, through every function: it holds the clock, the
  scripted answers of the services (each with the time the call takes) and the trace of
  the calls and log lines the script has produced so far.

  The script uses \<^verbatim>\<open>iteritems()\<close> and \<^verbatim>\<open>values()[0]\<close>, so it is read with the
  semantics of Python 2. Wall-clock values are floats in the script and reals here.
\<close>

text \<open>What \<^verbatim>\<open>json.loads\<close> returns. Numbers are restricted to integers.\<close>

datatype json =
    JNull
  | JBool bool
  | JNum int
  | JStr string
  | JArr "json list"
  | JObj "(string \<times> json) list"

text \<open>
  The exceptions the script can meet. \<open>SystemExit\<close> is what \<^verbatim>\<open>sys.exit\<close> raises; it
  is not an \<^verbatim>\<open>Exception\<close>, so no handler of the script catches it. \<open>IOError\<close> is
  what \<^verbatim>\<open>time.sleep\<close> raises on a negative argument (a \<^verbatim>\<open>ValueError\<close> under Python 3;
  the handlers of the script treat both alike).
\<close>

datatype py_error =
    KeyError
  | TypeError
  | ValueError
  | AttributeError
  | IOError
  | CalledProcessError
  | SystemExit nat

text \<open>
  A received message: an identity (the receipt handle) and its body as \<^verbatim>\<open>json.loads\<close>
  sees it, \<open>None\<close> when the text is not JSON at all (\<^verbatim>\<open>json.loads\<close> raises
  \<^verbatim>\<open>ValueError\<close>).
\<close>

record message =
  msg_id :: nat
  body :: "json option"

datatype event =
    ReceiveMessage string nat nat
  | DeleteMessage string nat
  | SendMessage string json
  | Sleep real real
  | GetAllGroups "json list"
  | GetAllReservations "string list" "string option"
  | GetInstanceMetadata
  | SetupEnvVariables json json
  | CfnSignal
  | LogEnter string real
  | LogInfo string
  | LogError string
  | LogException py_error

record ec2_instance =
  inst_id :: string
  inst_state :: string
  private_ip_address :: string

record reservations =
  res_instances :: "ec2_instance list"
  res_next_token :: "string option"

record asg_instance =
  instance_id :: string
  health_status :: string

record asg =
  asg_name :: string
  asg_instances :: "asg_instance list"

record world =
  clock :: real
  sqs_inbox :: "(real \<times> message list) list"
  asg_groups :: "asg list"
  ec2_pages :: "(real \<times> reservations) list"
  imds :: "(real \<times> json) list"
  setup_env_outcome :: "py_error option"
  cfn_signal_outcome :: "py_error option"
  trace :: "event list"

definition SLEEP_INTERVAL_IN_SECS :: real where
  "SLEEP_INTERVAL_IN_SECS = 30"

definition emit :: "event list \<Rightarrow> world \<Rightarrow> world" where
  "emit es w = w\<lparr>trace := trace w @ es\<rparr>"

text \<open>\<^verbatim>\<open>time.sleep(d)\<close>: raises on a negative duration, otherwise the clock moves on by \<open>d\<close>.\<close>

definition time_sleep :: "real \<Rightarrow> world \<Rightarrow> py_error + world" where
  "time_sleep d w =
     (if d < 0 then Inl IOError
      else Inr (w\<lparr>clock := clock w + d, trace := trace w @ [Sleep (clock w) d]\<rparr>))"

text \<open>
  \<^verbatim>\<open>sqs_con.receive_message(queue, number_messages, visibility_timeout)\<close>: the next
  scripted batch, cut to the number asked for; the call takes the scripted time. Once the
  script is used up the queue is empty and answers at once.
\<close>

definition receive_message :: "string \<Rightarrow> nat \<Rightarrow> nat \<Rightarrow> world \<Rightarrow> message list \<times> world" where
  "receive_message q n vis w =
     (case sqs_inbox w of
        [] \<Rightarrow> ([], w\<lparr>trace := trace w @ [ReceiveMessage q n vis]\<rparr>)
      | (lat, batch) # rest \<Rightarrow>
          (take n batch,
           w\<lparr>clock := clock w + lat, sqs_inbox := rest,
             trace := trace w @ [ReceiveMessage q n vis]\<rparr>))"

definition delete_message :: "string \<Rightarrow> message \<Rightarrow> world \<Rightarrow> world" where
  "delete_message q msg w = w\<lparr>trace := trace w @ [DeleteMessage q (msg_id msg)]\<rparr>"

text \<open>\<^verbatim>\<open>content[key]\<close> for a string key: only a dict can be indexed by a string.\<close>

definition py_getitem :: "json \<Rightarrow> string \<Rightarrow> py_error + json" where
  "py_getitem v k =
     (case v of
        JObj kvs \<Rightarrow> (case map_of kvs k of None \<Rightarrow> Inl KeyError | Some x \<Rightarrow> Inr x)
      | _ \<Rightarrow> Inl TypeError)"

text \<open>\<^verbatim>\<open>del content[key]\<close>.\<close>

definition py_delitem :: "json \<Rightarrow> string \<Rightarrow> py_error + json" where
  "py_delitem v k =
     (case v of
        JObj kvs \<Rightarrow>
          (case map_of kvs k of
             None \<Rightarrow> Inl KeyError
           | Some x \<Rightarrow> Inr (JObj (filter (\<lambda>kv. fst kv \<noteq> k) kvs)))
      | _ \<Rightarrow> Inl TypeError)"

text \<open>
  A value used as a dict key: lists and dicts are unhashable; \<^verbatim>\<open>True\<close> and \<^verbatim>\<open>1\<close>
  (and \<^verbatim>\<open>False\<close> and \<^verbatim>\<open>0\<close>) are the same key.
\<close>

definition dict_key :: "json \<Rightarrow> py_error + json" where
  "dict_key v =
     (case v of
        JArr _ \<Rightarrow> Inl TypeError
      | JObj _ \<Rightarrow> Inl TypeError
      | JBool b \<Rightarrow> Inr (JNum (if b then 1 else 0))
      | _ \<Rightarrow> Inr v)"

definition lower_char :: "char \<Rightarrow> char" where
  "lower_char c =
     (case map_of (zip ''ABCDEFGHIJKLMNOPQRSTUVWXYZ'' ''abcdefghijklmnopqrstuvwxyz'') c of
        None \<Rightarrow> c
      | Some d \<Rightarrow> d)"

definition lower :: "string \<Rightarrow> string" where
  "lower s = map lower_char s"

text \<open>\<^verbatim>\<open>'master' in key.lower()\<close>: only strings have \<^verbatim>\<open>lower\<close>.\<close>

definition master_in_lower :: "json \<Rightarrow> py_error + bool" where
  "master_in_lower key =
     (case key of
        JStr s \<Rightarrow> Inr (sublist ''master'' (lower s))
      | _ \<Rightarrow> Inl AttributeError)"

section \<open>The launch watcher: \<^verbatim>\<open>wait_until_asg_success\<close>\<close>

type_synonym ledger = "(json \<times> json) list"

text \<open>
  The body of the \<^verbatim>\<open>try\<close> block up to the call of \<^verbatim>\<open>delete_message\<close>: the new ledger
  and the lines logged, or the exception raised. The ledger \<^verbatim>\<open>asg_success_message\<close> is a
  dict; it is kept as an association list with distinct keys, in insertion order.
\<close>

definition merge_notice :: "json \<Rightarrow> ledger \<Rightarrow> py_error + (ledger \<times> event list)" where
  "merge_notice content led =
     (if content = JNull then Inr (led, [])
      else
        (case py_getitem content ''event'' of
           Inl e \<Rightarrow> Inl e
         | Inr ev \<Rightarrow>
             if ev \<noteq> JStr ''asg-setup'' then Inr (led, [])
             else
               (case py_getitem content ''status'' of
                  Inl e \<Rightarrow> Inl e
                | Inr st \<Rightarrow>
                    if st \<noteq> JStr ''success'' then Inr (led, [])
                    else
                      (case py_getitem content ''asg'' of
                         Inl e \<Rightarrow> Inl e
                       | Inr a \<Rightarrow>
                           (case dict_key a of
                              Inl e \<Rightarrow> Inl e
                            | Inr k \<Rightarrow>
                                if k \<notin> set (map fst led)
                                then Inr (led @ [(k, content)],
                                          [LogInfo ''autosclaing_group succeeded''])
                                else Inr (led, [LogInfo ''received duplicate sqs message'']))))))"

text \<open>
  The payloads on which a subscript of the \<^verbatim>\<open>try\<close> block raises \<^verbatim>\<open>KeyError\<close> or
  \<^verbatim>\<open>TypeError\<close>: anything but \<^verbatim>\<open>null\<close> that is not an object; an object without
  \<^verbatim>\<open>event\<close>; an \<^verbatim>\<open>asg-setup\<close> object without \<^verbatim>\<open>status\<close>; a successful one without
  \<^verbatim>\<open>asg\<close>, or whose \<^verbatim>\<open>asg\<close> cannot be a dict key.
\<close>

definition field_read_fails :: "json \<Rightarrow> bool" where
  "field_read_fails content =
     (case content of
        JNull \<Rightarrow> False
      | JObj kvs \<Rightarrow>
          (case map_of kvs ''event'' of
             None \<Rightarrow> True
           | Some ev \<Rightarrow>
               ev = JStr ''asg-setup'' \<and>
               (case map_of kvs ''status'' of
                  None \<Rightarrow> True
                | Some st \<Rightarrow>
                    st = JStr ''success'' \<and>
                    (case map_of kvs ''asg'' of
                       None \<Rightarrow> True
                     | Some (JArr xs) \<Rightarrow> True
                     | Some (JObj xs) \<Rightarrow> True
                     | Some a \<Rightarrow> False)))
      | _ \<Rightarrow> True)"

text \<open>
  One turn of \<^verbatim>\<open>for msg in recvd_messages\<close>. \<^verbatim>\<open>json.loads\<close> raises \<^verbatim>\<open>ValueError\<close> on
  a body that is not JSON, which \<^verbatim>\<open>except (TypeError, KeyError)\<close> does not catch.
\<close>

definition handle_asg_message ::
  "string \<Rightarrow> message \<Rightarrow> ledger \<Rightarrow> world \<Rightarrow> (py_error + ledger) \<times> world" where
  "handle_asg_message q msg led w =
     (case body msg of
        None \<Rightarrow> (Inl ValueError, w)
      | Some content \<Rightarrow>
          (case merge_notice content led of
             Inl e \<Rightarrow>
               if e = TypeError \<or> e = KeyError
               then (Inr led, emit [LogException e, LogError ''msg''] w)
               else (Inl e, w)
           | Inr (led', logs) \<Rightarrow> (Inr led', delete_message q msg (emit logs w))))"

fun process_asg_messages ::
  "string \<Rightarrow> message list \<Rightarrow> ledger \<Rightarrow> world \<Rightarrow> (py_error + ledger) \<times> world" where
  "process_asg_messages q [] led w = (Inr led, w)"
| "process_asg_messages q (m # ms) led w =
     (case handle_asg_message q m led w of
        (Inl e, w') \<Rightarrow> (Inl e, w')
      | (Inr led', w') \<Rightarrow> process_asg_messages q ms led' w')"

text \<open>
  The \<^verbatim>\<open>while True\<close> loop. Its arguments are the local variables \<^verbatim>\<open>start_time\<close>,
  \<^verbatim>\<open>timeout\<close>, \<^verbatim>\<open>next_execution_ts\<close> and \<^verbatim>\<open>asg_success_message\<close>.
\<close>

function asg_success_loop ::
  "string \<Rightarrow> real \<Rightarrow> real \<Rightarrow> real \<Rightarrow> ledger \<Rightarrow> world \<Rightarrow> (py_error + ledger) \<times> world" where
  "asg_success_loop q start_time timeout next_execution_ts led w =
     (let (recvd_messages, w1) = receive_message q 10 60 w in
      case process_asg_messages q recvd_messages led w1 of
        (Inl e, w2) \<Rightarrow> (Inl e, w2)
      | (Inr led', w2) \<Rightarrow>
          if length led' = 2
          then (Inr led', emit [LogInfo ''status of all autoscaling_groups received''] w2)
          else
            let next_ts = next_execution_ts + SLEEP_INTERVAL_IN_SECS in
            if next_ts > start_time + timeout
            then (Inr led', emit [LogInfo ''timeout while checking asg status''] w2)
            else
              (case time_sleep (next_ts - clock w2) w2 of
                 Inl e \<Rightarrow> (Inl e, w2)
               | Inr w3 \<Rightarrow> asg_success_loop q start_time timeout next_ts led' w3))"
  by pat_completeness auto
termination
proof (relation "measure (\<lambda>(q, start_time, timeout, next_execution_ts, led, w).
                   nat \<lceil>start_time + timeout - next_execution_ts\<rceil>)", goal_cases)
  case 1
  show ?case by simp
next
  case (2 q start_time timeout next_execution_ts led w x recvd w1 r w2 led' next_ts w3)
  then have "next_execution_ts + 30 \<le> start_time + timeout"
    by (simp add: SLEEP_INTERVAL_IN_SECS_def)
  with 2 show ?case
    by (simp add: SLEEP_INTERVAL_IN_SECS_def) linarith
qed

definition wait_until_asg_success ::
  "string \<Rightarrow> string \<Rightarrow> real \<Rightarrow> world \<Rightarrow> (py_error + ledger) \<times> world" where
  "wait_until_asg_success master_queue_name region timeout w =
     (let w0 = emit [LogEnter ''wait_until_asg_success'' timeout] w;
          start_time = clock w0
      in asg_success_loop master_queue_name start_time timeout start_time [] w0)"

text \<open>
  A sleep that is in order for a deadline: it lasts between 0 and 30 seconds and does not
  end after the deadline. \<open>Sleep c d\<close> is a sleep of \<open>d\<close> seconds begun at time \<open>c\<close>.
\<close>

fun sleep_within :: "real \<Rightarrow> event \<Rightarrow> bool" where
  "sleep_within deadline (Sleep c d) =
     (0 \<le> d \<and> d \<le> SLEEP_INTERVAL_IN_SECS \<and> c + d \<le> deadline)"
| "sleep_within deadline e = True"

section \<open>The worker side: \<^verbatim>\<open>wait_for_worker_setup_message\<close>\<close>

text \<open>What \<^verbatim>\<open>except (TypeError, KeyError)\<close> does in the worker loop: two lines, then \<^verbatim>\<open>continue\<close>.\<close>

definition worker_caught :: "py_error \<Rightarrow> world \<Rightarrow> (py_error + (json \<times> json) option) \<times> world" where
  "worker_caught e w = (Inr None, emit [LogError ''e'', LogError ''msg''] w)"

text \<open>
  One turn of \<^verbatim>\<open>for msg in recvd_messages\<close>: \<open>Inr None\<close> is \<^verbatim>\<open>continue\<close>,
  \<open>Inr (Some (m, ws))\<close> is \<^verbatim>\<open>return content['master-ip'], content['worker-ips']\<close>.
\<close>

definition handle_worker_message ::
  "message \<Rightarrow> world \<Rightarrow> (py_error + (json \<times> json) option) \<times> world" where
  "handle_worker_message msg w =
     (case body msg of
        None \<Rightarrow> (Inl ValueError, w)
      | Some content \<Rightarrow>
          if content = JNull then (Inr None, w)
          else
            (case py_getitem content ''event'' of
               Inl e \<Rightarrow> worker_caught e w
             | Inr ev \<Rightarrow>
                 if ev \<noteq> JStr ''worker-setup'' then (Inr None, w)
                 else
                   (let w1 = emit [LogInfo ''received worker-setup success message''] w in
                    case py_getitem content ''master-ip'' of
                      Inl e \<Rightarrow> worker_caught e w1
                    | Inr m \<Rightarrow>
                        (case py_getitem content ''worker-ips'' of
                           Inl e \<Rightarrow> worker_caught e w1
                         | Inr ws \<Rightarrow> (Inr (Some (m, ws)), w1)))))"

fun scan_worker_messages ::
  "message list \<Rightarrow> world \<Rightarrow> (py_error + (json \<times> json) option) \<times> world" where
  "scan_worker_messages [] w = (Inr None, w)"
| "scan_worker_messages (m # ms) w =
     (case handle_worker_message m w of
        (Inr None, w') \<Rightarrow> scan_worker_messages ms w'
      | (r, w') \<Rightarrow> (r, w'))"

function worker_setup_loop ::
  "string \<Rightarrow> real \<Rightarrow> real \<Rightarrow> real \<Rightarrow> world \<Rightarrow> (py_error + (json \<times> json) option) \<times> world" where
  "worker_setup_loop q start_time timeout next_execution_ts w =
     (let (recvd_messages, w1) = receive_message q 10 0 w in
      case scan_worker_messages recvd_messages w1 of
        (Inl e, w2) \<Rightarrow> (Inl e, w2)
      | (Inr (Some found), w2) \<Rightarrow> (Inr (Some found), w2)
      | (Inr None, w2) \<Rightarrow>
          let next_ts = next_execution_ts + SLEEP_INTERVAL_IN_SECS in
          if next_ts > start_time + timeout
          then (Inr None, emit [LogInfo ''did not receive worker-setup success''] w2)
          else
            (case time_sleep (next_ts - clock w2) w2 of
               Inl e \<Rightarrow> (Inl e, w2)
             | Inr w3 \<Rightarrow> worker_setup_loop q start_time timeout next_ts w3))"
  by pat_completeness auto
termination
proof (relation "measure (\<lambda>(q, start_time, timeout, next_execution_ts, w).
                   nat \<lceil>start_time + timeout - next_execution_ts\<rceil>)", goal_cases)
  case 1
  show ?case by simp
next
  case (2 q start_time timeout next_execution_ts w x recvd w1 r w2 found next_ts w3)
  then have "next_execution_ts + 30 \<le> start_time + timeout"
    by (simp add: SLEEP_INTERVAL_IN_SECS_def)
  with 2 show ?case
    by (simp add: SLEEP_INTERVAL_IN_SECS_def) linarith
qed

definition wait_for_worker_setup_message ::
  "string \<Rightarrow> real \<Rightarrow> string \<Rightarrow> world \<Rightarrow> (py_error + (json \<times> json) option) \<times> world" where
  "wait_for_worker_setup_message worker_queue_name timeout region w =
     (let w0 = emit [LogEnter ''wait_for_worker_setup_message'' timeout] w;
          start_time = clock w0
      in worker_setup_loop worker_queue_name start_time timeout start_time w0)"



text \<open>The messages the scripted queue hands out, in the order of the receive calls.\<close>

definition received_stream :: "nat \<Rightarrow> world \<Rightarrow> message list" where
  "received_stream n w = concat (map (\<lambda>(lat, batch). take n batch) (sqs_inbox w))"

section \<open>The role gate: \<^verbatim>\<open>check_instance_role_availability\<close>\<close>

text \<open>
  \<^verbatim>\<open>boto.utils.get_instance_metadata\<close>: the next scripted answer; once the script is used
  up the metadata is empty.
\<close>

definition get_instance_metadata :: "world \<Rightarrow> json \<times> world" where
  "get_instance_metadata w =
     (case imds w of
        [] \<Rightarrow> (JObj [], w\<lparr>trace := trace w @ [GetInstanceMetadata]\<rparr>)
      | (lat, metadata) # rest \<Rightarrow>
          (metadata, w\<lparr>clock := clock w + lat, imds := rest,
                      trace := trace w @ [GetInstanceMetadata]\<rparr>))"

text \<open>The body of the \<^verbatim>\<open>try\<close> block: the lookup of the role and the three \<^verbatim>\<open>del\<close>.\<close>

definition read_instance_role :: "json \<Rightarrow> string \<Rightarrow> py_error + json" where
  "read_instance_role metadata role_name =
     (case py_getitem metadata ''iam'' of
        Inl e \<Rightarrow> Inl e
      | Inr iam \<Rightarrow>
          (case py_getitem iam ''security-credentials'' of
             Inl e \<Rightarrow> Inl e
           | Inr creds \<Rightarrow>
               (case py_getitem creds role_name of
                  Inl e \<Rightarrow> Inl e
                | Inr instance_role \<Rightarrow>
                    (case py_delitem instance_role ''AccessKeyId'' of
                       Inl e \<Rightarrow> Inl e
                     | Inr r1 \<Rightarrow>
                         (case py_delitem r1 ''SecretAccessKey'' of
                            Inl e \<Rightarrow> Inl e
                          | Inr r2 \<Rightarrow> py_delitem r2 ''Token'')))))"

function role_loop ::
  "string \<Rightarrow> real \<Rightarrow> real \<Rightarrow> real \<Rightarrow> world \<Rightarrow> (py_error + bool) \<times> world" where
  "role_loop role_name start_time timeout next_execution_ts w =
     (let (metadata, w1) = get_instance_metadata w in
      case read_instance_role metadata role_name of
        Inr instance_role \<Rightarrow> (Inr True, emit [LogInfo ''SUCCESS getting instance role''] w1)
      | Inl e \<Rightarrow>
          if e \<noteq> KeyError then (Inl e, w1)
          else
            let w2 = emit [LogInfo ''FAILED to get instance role''] w1;
                next_ts = next_execution_ts + SLEEP_INTERVAL_IN_SECS
            in
            if next_ts > start_time + timeout
            then (Inr False, emit [LogInfo ''TIMEOUT while checking instance role''] w2)
            else
              (case time_sleep (next_ts - clock w2) w2 of
                 Inl e' \<Rightarrow> (Inl e', w2)
               | Inr w3 \<Rightarrow> role_loop role_name start_time timeout next_ts w3))"
  by pat_completeness auto
termination
proof (relation "measure (\<lambda>(role_name, start_time, timeout, next_execution_ts, w).
                   nat \<lceil>start_time + timeout - next_execution_ts\<rceil>)", goal_cases)
  case 1
  show ?case by simp
next
  case (2 role_name start_time timeout next_execution_ts w x metadata w1 e w2 next_ts w3)
  then have "next_execution_ts + 30 \<le> start_time + timeout"
    by (simp add: SLEEP_INTERVAL_IN_SECS_def)
  with 2 show ?case
    by (simp add: SLEEP_INTERVAL_IN_SECS_def) linarith
qed

definition check_instance_role_availability ::
  "string \<Rightarrow> real \<Rightarrow> world \<Rightarrow> (py_error + bool) \<times> world" where
  "check_instance_role_availability role_name timeout w =
     (let w0 = emit [LogEnter ''check_instance_role_availability'' timeout] w;
          start_time = clock w0
      in role_loop role_name start_time timeout start_time w0)"

section \<open>The membership resolver: \<^verbatim>\<open>wait_until_instances_active\<close>\<close>

text \<open>
  The dicts \<^verbatim>\<open>master_instances\<close> and \<^verbatim>\<open>worker_instances\<close> (instance id to private
  address) are association lists with distinct keys; \<^verbatim>\<open>d[k] = v\<close> is \<open>AList.update\<close>.
\<close>

type_synonym addresses = "(string \<times> string) list"

definition healthy_ids :: "asg \<Rightarrow> string list" where
  "healthy_ids a =
     map instance_id (filter (\<lambda>i. health_status i = ''Healthy'') (asg_instances a))"

text \<open>\<^verbatim>\<open>for asg in groups\<close>: the ids of the healthy members, split by the group's name.\<close>

fun split_groups :: "asg list \<Rightarrow> string list \<times> string list \<Rightarrow> string list \<times> string list" where
  "split_groups [] ids = ids"
| "split_groups (a # as) (master_instance_ids, worker_instance_ids) =
     (if sublist ''master'' (lower (asg_name a))
      then split_groups as (master_instance_ids @ healthy_ids a, worker_instance_ids)
      else split_groups as (master_instance_ids, worker_instance_ids @ healthy_ids a))"

text \<open>
  \<^verbatim>\<open>ec2_con.get_all_reservations(instance_ids, next_token)\<close>: the next scripted page; once
  the script is used up the answer is an empty page with no token.
\<close>

definition get_all_reservations ::
  "string list \<Rightarrow> string option \<Rightarrow> world \<Rightarrow> reservations \<times> world" where
  "get_all_reservations ids token w =
     (case ec2_pages w of
        [] \<Rightarrow> (\<lparr>res_instances = [], res_next_token = None\<rparr>,
               w\<lparr>trace := trace w @ [GetAllReservations ids token]\<rparr>)
      | (lat, page) # rest \<Rightarrow>
          (page, w\<lparr>clock := clock w + lat, ec2_pages := rest,
                  trace := trace w @ [GetAllReservations ids token]\<rparr>))"

text \<open>
  One instance of a page. The state is \<^verbatim>\<open>pending_instance_ids\<close>, \<^verbatim>\<open>master_instances\<close>
  and \<^verbatim>\<open>worker_instances\<close>. \<^verbatim>\<open>list.remove\<close> raises \<^verbatim>\<open>ValueError\<close> when the id is not
  in the list.
\<close>

definition observe_instance ::
  "string list \<Rightarrow> string list \<Rightarrow> ec2_instance \<Rightarrow> string list \<times> addresses \<times> addresses
     \<Rightarrow> py_error + (string list \<times> addresses \<times> addresses)" where
  "observe_instance master_instance_ids worker_instance_ids i st =
     (case st of (pending_instance_ids, master_instances, worker_instances) \<Rightarrow>
        if lower (inst_state i) = ''running''
        then
          (let (master_instances', worker_instances') =
                 (if inst_id i \<in> set master_instance_ids
                  then (AList.update (inst_id i) (private_ip_address i) master_instances,
                        worker_instances)
                  else if inst_id i \<in> set worker_instance_ids
                  then (master_instances,
                        AList.update (inst_id i) (private_ip_address i) worker_instances)
                  else (master_instances, worker_instances))
           in if inst_id i \<in> set pending_instance_ids
              then Inr (remove1 (inst_id i) pending_instance_ids,
                        master_instances', worker_instances')
              else Inl ValueError)
        else Inr st)"

fun observe_instances ::
  "string list \<Rightarrow> string list \<Rightarrow> ec2_instance list \<Rightarrow> string list \<times> addresses \<times> addresses
     \<Rightarrow> py_error + (string list \<times> addresses \<times> addresses)" where
  "observe_instances mids wids [] st = Inr st"
| "observe_instances mids wids (i # is) st =
     (case observe_instance mids wids i st of
        Inl e \<Rightarrow> Inl e
      | Inr st' \<Rightarrow> observe_instances mids wids is st')"

text \<open>
  The \<^verbatim>\<open>while True\<close> loop of the resolver. Nothing bounds the number of its turns, so the
  model is a partial function: \<open>None\<close> is a run that never returns.
\<close>

partial_function (option) instances_loop ::
  "string list \<Rightarrow> string list \<Rightarrow> real \<Rightarrow> real \<Rightarrow> real \<Rightarrow> string option
     \<Rightarrow> string list \<times> addresses \<times> addresses \<Rightarrow> world
     \<Rightarrow> ((py_error + addresses \<times> addresses) \<times> world) option" where
  "instances_loop mids wids start_time timeout next_execution_ts next_token st w =
     (case get_all_reservations (fst st) next_token w of
        (page, w1) \<Rightarrow>
          (case observe_instances mids wids (res_instances page) st of
             Inl e \<Rightarrow> Some (Inl e, w1)
           | Inr st' \<Rightarrow>
               (case st' of (pending_instance_ids, master_instances, worker_instances) \<Rightarrow>
                  if length pending_instance_ids = 0
                  then Some (Inr (master_instances, worker_instances),
                             emit [LogInfo ''received info of all instances''] w1)
                  else if res_next_token page \<noteq> None
                  then instances_loop mids wids start_time timeout
                         (next_execution_ts + SLEEP_INTERVAL_IN_SECS) (res_next_token page) st'
                         (emit [LogInfo ''next_token is not None''] w1)
                  else if next_execution_ts + SLEEP_INTERVAL_IN_SECS < start_time + timeout
                  then Some (Inr (master_instances, worker_instances),
                             emit [LogError ''Reached timeout''] w1)
                  else
                    (case time_sleep (next_execution_ts + SLEEP_INTERVAL_IN_SECS - clock w1)
                            (emit [LogInfo ''not all instance info is available''] w1) of
                       Inl e \<Rightarrow>
                         Some (Inl e, emit [LogInfo ''not all instance info is available''] w1)
                     | Inr w2 \<Rightarrow>
                         instances_loop mids wids start_time timeout
                           (next_execution_ts + SLEEP_INTERVAL_IN_SECS) (res_next_token page)
                           st' w2))))"

declare instances_loop.simps [code]

text \<open>
  The whole function: every exception raised inside is caught by
  \<^verbatim>\<open>except Exception\<close>, which returns two empty dicts.
\<close>

definition wait_until_instances_active ::
  "json list \<Rightarrow> real \<Rightarrow> string \<Rightarrow> world \<Rightarrow> ((addresses \<times> addresses) \<times> world) option" where
  "wait_until_instances_active autoscaling_groups timeout region w =
     (let w0 = emit [LogEnter ''wait_until_instances_active'' timeout] w;
          start_time = clock w0;
          w1 = emit [GetAllGroups autoscaling_groups] w0;
          (master_instance_ids, worker_instance_ids) = split_groups (asg_groups w1) ([], [])
      in case instances_loop master_instance_ids worker_instance_ids start_time timeout
                start_time None (master_instance_ids @ worker_instance_ids, [], []) w1 of
           None \<Rightarrow> None
         | Some (Inl e, w2) \<Rightarrow> Some (([], []), emit [LogException e] w2)
         | Some (Inr found, w2) \<Rightarrow> Some (found, w2))"

section \<open>The master side: \<^verbatim>\<open>setup_worker_metadata\<close>\<close>

text \<open>
  \<^verbatim>\<open>for key, value in asg_setup_messages.iteritems()\<close>: the last notice whose group name
  holds \<^verbatim>\<open>master\<close> and the last one whose name does not; both start as \<^verbatim>\<open>None\<close>.
\<close>

fun assign_roles :: "ledger \<Rightarrow> json \<times> json \<Rightarrow> py_error + (json \<times> json)" where
  "assign_roles [] found = Inr found"
| "assign_roles ((key, val) # rest) (master_asg_message, worker_asg_message) =
     (case master_in_lower key of
        Inl e \<Rightarrow> Inl e
      | Inr True \<Rightarrow> assign_roles rest (val, worker_asg_message)
      | Inr False \<Rightarrow> assign_roles rest (master_asg_message, val))"

text \<open>\<^verbatim>\<open>len(worker_instances) != worker_asg_message['launched']\<close>.\<close>

definition len_differs :: "nat \<Rightarrow> json \<Rightarrow> bool" where
  "len_differs n v =
     (case v of
        JNum k \<Rightarrow> int n \<noteq> k
      | JBool b \<Rightarrow> int n \<noteq> (if b then 1 else 0)
      | _ \<Rightarrow> True)"

text \<open>
  The end of \<^verbatim>\<open>setup_worker_metadata\<close>, from the check of the number of masters on:
  \<^verbatim>\<open>sys.exit(1)\<close> unless exactly one master address was resolved, otherwise the master's
  address and the sorted list of the master's and the workers' addresses.
\<close>

definition build_membership ::
  "addresses \<Rightarrow> addresses \<Rightarrow> json \<Rightarrow> world \<Rightarrow> (py_error + string \<times> string list) \<times> world" where
  "build_membership master_instances worker_instances worker_asg_message w =
     (if length master_instances \<noteq> 1
      then (Inl (SystemExit 1), emit [LogError ''expected single master''] w)
      else
        (let master_instance_ip = snd (hd master_instances);
             worker_instance_ips = [master_instance_ip]
         in if length worker_instances = 0
            then (Inr (master_instance_ip, sort worker_instance_ips),
                  emit [LogInfo ''no worker is launched''] w)
            else
              (case py_getitem worker_asg_message ''launched'' of
                 Inl e \<Rightarrow> (Inl e, w)
               | Inr launched \<Rightarrow>
                   (Inr (master_instance_ip,
                         sort (worker_instance_ips @ map snd worker_instances)),
                    if len_differs (length worker_instances) launched
                    then emit [LogError ''expected number of instances to be running''] w
                    else w))))"

definition setup_worker_metadata ::
  "real \<Rightarrow> string \<Rightarrow> string \<Rightarrow> string \<Rightarrow> world
     \<Rightarrow> ((py_error + string \<times> string list) \<times> world) option" where
  "setup_worker_metadata setup_timeout master_queue_name stack_id region w =
     (let w0 = emit [LogInfo ''setup_worker_metadata''] w;
          start_time = clock w0
      in case wait_until_asg_success master_queue_name region setup_timeout w0 of
           (Inl e, w1) \<Rightarrow> Some (Inl e, w1)
         | (Inr asg_setup_messages, w1) \<Rightarrow>
             if length asg_setup_messages \<noteq> 2
             then Some (Inl (SystemExit 1),
                        emit [LogError ''did not receive asg success message''] w1)
             else
               (case assign_roles asg_setup_messages (JNull, JNull) of
                  Inl e \<Rightarrow> Some (Inl e, w1)
                | Inr (master_asg_message, worker_asg_message) \<Rightarrow>
                    (let timeout = setup_timeout - (clock w1 - start_time) in
                     case py_getitem master_asg_message ''asg'' of
                       Inl e \<Rightarrow> Some (Inl e, w1)
                     | Inr master_asg \<Rightarrow>
                         (case py_getitem worker_asg_message ''asg'' of
                            Inl e \<Rightarrow> Some (Inl e, w1)
                          | Inr worker_asg \<Rightarrow>
                              (case wait_until_instances_active [master_asg, worker_asg]
                                      timeout region w1 of
                                 None \<Rightarrow> None
                               | Some ((master_instances, worker_instances), w2) \<Rightarrow>
                                   Some (build_membership master_instances worker_instances
                                           worker_asg_message w2))))))"

definition send_worker_setup_msg :: "string \<Rightarrow> string \<Rightarrow> string list \<Rightarrow> string \<Rightarrow> world \<Rightarrow> world" where
  "send_worker_setup_msg worker_queue_name master_instance_ip worker_instance_ips region w =
     emit [SendMessage worker_queue_name
             (JObj [(''event'', JStr ''worker-setup''),
                    (''master-ip'', JStr master_instance_ip),
                    (''worker-ips'', JArr (map JStr worker_instance_ips))])] w"

section \<open>The top level: \<^verbatim>\<open>main\<close>\<close>

text \<open>
  \<^verbatim>\<open>setup_env_variables\<close> and \<^verbatim>\<open>send_cfn_success_signal\<close> write files and run a
  program; whether they fail is the world's to say. \<^verbatim>\<open>send_cfn_success_signal\<close> turns a
  \<^verbatim>\<open>CalledProcessError\<close> into \<^verbatim>\<open>sys.exit(1)\<close>.
\<close>

definition setup_env_variables :: "json \<Rightarrow> json \<Rightarrow> world \<Rightarrow> (py_error + unit) \<times> world" where
  "setup_env_variables master_instance_ip worker_instance_ips w =
     (let w1 = emit [SetupEnvVariables master_instance_ip worker_instance_ips] w
      in case setup_env_outcome w1 of
           None \<Rightarrow> (Inr (), w1)
         | Some e \<Rightarrow> (Inl e, w1))"

definition send_cfn_success_signal :: "world \<Rightarrow> (py_error + unit) \<times> world" where
  "send_cfn_success_signal w =
     (let w1 = emit [CfnSignal] w
      in case cfn_signal_outcome w1 of
           None \<Rightarrow> (Inr (), w1)
         | Some e \<Rightarrow>
             if e = CalledProcessError
             then (Inl (SystemExit 1), emit [LogException e] w1)
             else (Inl e, w1))"

text \<open>The settings \<^verbatim>\<open>main\<close> reads from the environment, the two timeouts already as numbers.\<close>

record config =
  AWS_DL_NODE_TYPE :: string
  AWS_DL_MASTER_QUEUE :: string
  AWS_DL_WORKER_QUEUE :: string
  AWS_DL_WAITCONDITION_TIMEOUT :: real
  AWS_DL_MASTERLAUNCH_TIMEOUT :: real
  AWS_DL_STACK_ID :: string
  AWS_DL_ROLE_NAME :: string
  AWS_REGION :: string

text \<open>
  The body of the \<^verbatim>\<open>try\<close> block of \<^verbatim>\<open>main\<close>. The value of
  \<^verbatim>\<open>check_instance_role_availability\<close> is not used. Unpacking \<^verbatim>\<open>None\<close> into two names
  raises \<^verbatim>\<open>TypeError\<close>.
\<close>

definition main_body :: "config \<Rightarrow> world \<Rightarrow> ((py_error + unit) \<times> world) option" where
  "main_body cfg w =
     (let setup_timeout = AWS_DL_WAITCONDITION_TIMEOUT cfg - AWS_DL_MASTERLAUNCH_TIMEOUT cfg;
          start_time = clock w
      in case check_instance_role_availability (AWS_DL_ROLE_NAME cfg) setup_timeout w of
           (Inl e, w1) \<Rightarrow> Some (Inl e, w1)
         | (Inr available, w1) \<Rightarrow>
             (let setup_timeout' = setup_timeout - (clock w1 - start_time) in
              if lower (AWS_DL_NODE_TYPE cfg) = ''master''
              then
                (case setup_worker_metadata setup_timeout' (AWS_DL_MASTER_QUEUE cfg)
                        (AWS_DL_STACK_ID cfg) (AWS_REGION cfg) w1 of
                   None \<Rightarrow> None
                 | Some (Inl e, w2) \<Rightarrow> Some (Inl e, w2)
                 | Some (Inr (master_instance_ip, worker_instance_ips), w2) \<Rightarrow>
                     (case setup_env_variables (JStr master_instance_ip)
                             (JArr (map JStr worker_instance_ips)) w2 of
                        (Inl e, w3) \<Rightarrow> Some (Inl e, w3)
                      | (Inr u, w3) \<Rightarrow>
                          Some (send_cfn_success_signal
                                  (send_worker_setup_msg (AWS_DL_WORKER_QUEUE cfg)
                                     master_instance_ip worker_instance_ips
                                     (AWS_REGION cfg) w3))))
              else if lower (AWS_DL_NODE_TYPE cfg) = ''worker''
              then
                (case wait_for_worker_setup_message (AWS_DL_WORKER_QUEUE cfg) setup_timeout'
                        (AWS_REGION cfg) w1 of
                   (Inl e, w2) \<Rightarrow> Some (Inl e, w2)
                 | (Inr None, w2) \<Rightarrow> Some (Inl TypeError, w2)
                 | (Inr (Some (master_instance_ip, worker_instance_ips)), w2) \<Rightarrow>
                     if master_instance_ip = JNull \<or> worker_instance_ips = JNull
                     then Some (Inl (SystemExit 1),
                                emit [LogError ''FAILED worker metadata setup''] w2)
                     else Some (setup_env_variables master_instance_ip worker_instance_ips w2))
              else Some (Inl (SystemExit 1), emit [LogError ''unknown node type''] w1)))"

text \<open>
  \<^verbatim>\<open>main\<close>: the exit status of the process and the final world. \<^verbatim>\<open>except Exception\<close>
  logs the exception and exits with 1; \<^verbatim>\<open>SystemExit\<close> passes it by.
\<close>

definition main :: "config \<Rightarrow> world \<Rightarrow> (nat \<times> world) option" where
  "main cfg w =
     (case main_body cfg (emit [LogInfo ''main''] w) of
        None \<Rightarrow> None
      | Some (Inr u, w') \<Rightarrow> Some (0, w')
      | Some (Inl e, w') \<Rightarrow>
          (case e of
             SystemExit n \<Rightarrow> Some (n, w')
           | _ \<Rightarrow> Some (1, emit [LogException e] w')))"

section \<open>Example worlds\<close>

text \<open>A world in which nothing ever arrives and every call answers at once.\<close>

definition quiet_world :: world where
  "quiet_world = \<lparr>clock = 0, sqs_inbox = [], asg_groups = [], ec2_pages = [], imds = [],
     setup_env_outcome = None, cfn_signal_outcome = None, trace = []\<rparr>"

definition failure_notice :: message where
  "failure_notice = \<lparr>msg_id = 7, body = Some (JObj [(''event'', JStr ''asg-setup''),
     (''status'', JStr ''failure''), (''asg'', JStr ''stack-WorkerASG-1'')])\<rparr>"

definition broadcast :: message where
  "broadcast = \<lparr>msg_id = 1, body = Some (JObj [(''event'', JStr ''worker-setup''),
     (''master-ip'', JStr ''10.0.0.1''),
     (''worker-ips'', JArr [JStr ''10.0.0.1'', JStr ''10.0.0.2''])])\<rparr>"

definition worker_cfg :: config where
  "worker_cfg = \<lparr>AWS_DL_NODE_TYPE = ''worker'', AWS_DL_MASTER_QUEUE = ''mq'',
     AWS_DL_WORKER_QUEUE = ''wq'', AWS_DL_WAITCONDITION_TIMEOUT = 5,
     AWS_DL_MASTERLAUNCH_TIMEOUT = 0, AWS_DL_STACK_ID = ''s'',
     AWS_DL_ROLE_NAME = ''role'', AWS_REGION = ''r''\<rparr>"

definition master_group :: asg where
  "master_group = \<lparr>asg_name = ''stack-MasterASG-1'',
     asg_instances = [\<lparr>instance_id = ''i-1'', health_status = ''Healthy''\<rparr>]\<rparr>"

definition pending_page :: reservations where
  "pending_page = \<lparr>res_instances = [\<lparr>inst_id = ''i-1'', inst_state = ''pending'',
     private_ip_address = ''10.0.0.1''\<rparr>], res_next_token = None\<rparr>"

definition running_page :: reservations where
  "running_page = \<lparr>res_instances = [\<lparr>inst_id = ''i-1'', inst_state = ''running'',
     private_ip_address = ''10.0.0.1''\<rparr>], res_next_token = None\<rparr>"

text \<open>One healthy master that the directory reports as pending first and as running next.\<close>

definition slow_start_world :: world where
  "slow_start_world = quiet_world\<lparr>asg_groups := [master_group],
     ec2_pages := [(0, pending_page), (0, running_page)]\<rparr>"

text \<open>A worker whose role never shows up while the broadcast is already on the queue.\<close>

definition no_role_world :: world where
  "no_role_world = quiet_world\<lparr>sqs_inbox := [(0, [broadcast])]\<rparr>"

text \<open>
  The launch of one master and two workers: both notices arrive in the first batch and the
  directory reports every member as running.
\<close>

definition master_notice :: message where
  "master_notice = \<lparr>msg_id = 1, body = Some (JObj [(''event'', JStr ''asg-setup''),
     (''status'', JStr ''success''), (''asg'', JStr ''stack-MasterASG-1''),
     (''launched'', JNum 1)])\<rparr>"

definition worker_notice :: message where
  "worker_notice = \<lparr>msg_id = 2, body = Some (JObj [(''event'', JStr ''asg-setup''),
     (''status'', JStr ''success''), (''asg'', JStr ''stack-WorkerASG-1''),
     (''launched'', JNum 2)])\<rparr>"

definition worker_group :: asg where
  "worker_group = \<lparr>asg_name = ''stack-WorkerASG-1'',
     asg_instances = [\<lparr>instance_id = ''i-3'', health_status = ''Healthy''\<rparr>,
                      \<lparr>instance_id = ''i-2'', health_status = ''Healthy''\<rparr>]\<rparr>"

definition all_running_page :: reservations where
  "all_running_page = \<lparr>res_instances =
     [\<lparr>inst_id = ''i-3'', inst_state = ''running'', private_ip_address = ''10.0.0.3''\<rparr>,
      \<lparr>inst_id = ''i-1'', inst_state = ''running'', private_ip_address = ''10.0.0.1''\<rparr>,
      \<lparr>inst_id = ''i-2'', inst_state = ''running'', private_ip_address = ''10.0.0.2''\<rparr>],
     res_next_token = None\<rparr>"

definition launch_world :: world where
  "launch_world = quiet_world\<lparr>sqs_inbox := [(0, [master_notice, worker_notice])],
     asg_groups := [master_group, worker_group],
     ec2_pages := [(0, all_running_page)]\<rparr>"

text \<open>The same launch with a directory that lists no healthy member at all.\<close>

definition no_master_world :: world where
  "no_master_world = quiet_world\<lparr>sqs_inbox := [(0, [master_notice, worker_notice])]\<rparr>"

definition master_cfg :: config where
  "master_cfg = \<lparr>AWS_DL_NODE_TYPE = ''Master'', AWS_DL_MASTER_QUEUE = ''mq'',
     AWS_DL_WORKER_QUEUE = ''wq'', AWS_DL_WAITCONDITION_TIMEOUT = 600,
     AWS_DL_MASTERLAUNCH_TIMEOUT = 0, AWS_DL_STACK_ID = ''s'',
     AWS_DL_ROLE_NAME = ''role'', AWS_REGION = ''r''\<rparr>"

definition role_metadata :: json where
  "role_metadata = JObj [(''iam'', JObj [(''security-credentials'',
     JObj [(''role'', JObj [(''AccessKeyId'', JStr ''a''), (''SecretAccessKey'', JStr ''s''),
                            (''Token'', JStr ''t'')])])])]"

text \<open>A launch in which the master group holds two healthy, running members.\<close>

definition two_masters_world :: world where
  "two_masters_world = quiet_world\<lparr>
     sqs_inbox := [(0, [master_notice, worker_notice])],
     asg_groups := [\<lparr>asg_name = ''stack-MasterASG-1'',
        asg_instances = [\<lparr>instance_id = ''i-1'', health_status = ''Healthy''\<rparr>,
                         \<lparr>instance_id = ''i-4'', health_status = ''Healthy''\<rparr>]\<rparr>],
     ec2_pages := [(0, \<lparr>res_instances =
        [\<lparr>inst_id = ''i-1'', inst_state = ''running'', private_ip_address = ''10.0.0.1''\<rparr>,
         \<lparr>inst_id = ''i-4'', inst_state = ''running'', private_ip_address = ''10.0.0.4''\<rparr>],
        res_next_token = None\<rparr>)],
     imds := [(2, role_metadata)]\<rparr>"

text \<open>Messages for the launch watcher: one without the \<^verbatim>\<open>event\<close> field, one that is not JSON.\<close>

definition untagged_message :: message where
  "untagged_message = \<lparr>msg_id = 8, body = Some (JObj [(''status'', JStr ''success'')])\<rparr>"

definition garbage_message :: message where
  "garbage_message = \<lparr>msg_id = 9, body = None\<rparr>"


text \<open>A master queue whose polls take 2 and 3 seconds and never bring a success notice.\<close>

definition slow_queue_world :: world where
  "slow_queue_world = quiet_world\<lparr>sqs_inbox := [(2, []), (3, [failure_notice])]\<rparr>"

text \<open>
  The master's notice is delivered in the first poll and twice more in the second, around
  the worker's notice.
\<close>

definition redelivery_world :: world where
  "redelivery_world = quiet_world\<lparr>sqs_inbox :=
     [(0, [master_notice]), (0, [master_notice, worker_notice, master_notice])]\<rparr>"

section \<open>The ledger merge is idempotent\<close>

lemma merge_notice_keys:
  "merge_notice content led = Inr (led', logs) \<Longrightarrow> set (map fst led) \<subseteq> set (map fst led')"
  by (auto simp: merge_notice_def split: if_splits sum.splits)

lemma merge_notice_again:
  "merge_notice content led = Inr (led', logs) \<Longrightarrow> set (map fst led') \<subseteq> set (map fst led'')
   \<Longrightarrow> \<exists>logs'. merge_notice content led'' = Inr (led'', logs')"
  by (auto simp: merge_notice_def split: if_splits sum.splits) (force+)

lemma merge_notice_error_indep:
  "merge_notice content led = Inl e \<Longrightarrow> merge_notice content led'' = Inl e"
  by (auto simp: merge_notice_def split: if_splits sum.splits)

lemma handle_keys:
  "handle_asg_message q m led w = (Inr led', w') \<Longrightarrow> set (map fst led) \<subseteq> set (map fst led')"
  by (auto simp: handle_asg_message_def split: option.splits sum.splits if_splits dest!: merge_notice_keys) (force+)

lemma handle_again:
  assumes "handle_asg_message q m led w = (Inr led', w')" "set (map fst led') \<subseteq> set (map fst led'')"
  shows "fst (handle_asg_message q m led'' w'') = Inr led''"
proof (cases "body m")
  case None
  with assms show ?thesis by (simp add: handle_asg_message_def)
next
  case (Some content)
  show ?thesis
  proof (cases "merge_notice content led")
    case (Inl e)
    then have "merge_notice content led'' = Inl e" by (rule merge_notice_error_indep)
    with assms Some Inl show ?thesis
      by (auto simp: handle_asg_message_def split: if_splits)
  next
    case (Inr p)
    obtain l logs where p: "p = (l, logs)" by (cases p)
    with assms Some Inr have "l = led'" by (simp add: handle_asg_message_def)
    with Inr p assms(2) obtain logs' where "merge_notice content led'' = Inr (led'', logs')"
      using merge_notice_again by blast
    with Some show ?thesis by (simp add: handle_asg_message_def)
  qed
qed

lemma process_keys:
  "process_asg_messages q ms led w = (Inr led', w') \<Longrightarrow> set (map fst led) \<subseteq> set (map fst led')"
proof (induction ms arbitrary: led w)
  case Nil
  then show ?case by simp
next
  case (Cons m ms)
  then show ?case
    by (auto split: prod.splits sum.splits dest!: handle_keys) (force+)
qed

lemma process_replicate_same:
  assumes "fst (handle_asg_message q m led w) = Inr led"
    and "\<And>w'. fst (handle_asg_message q m led w') = Inr led"
  shows "fst (process_asg_messages q (replicate n m) led w) = Inr led"
  using assms
proof (induction n arbitrary: w)
  case 0
  then show ?case by simp
next
  case (Suc n)
  obtain r w1 where h: "handle_asg_message q m led w = (r, w1)" by (cases "handle_asg_message q m led w")
  with Suc.prems have "r = Inr led" by simp
  with h Suc show ?case by simp
qed

lemma ledger_merge_replicate:
  "fst (process_asg_messages q (replicate (Suc n) m) led w) = fst (process_asg_messages q [m] led w)"
proof -
  obtain r w1 where h: "handle_asg_message q m led w = (r, w1)" by (cases "handle_asg_message q m led w")
  show ?thesis
  proof (cases r)
    case (Inl e)
    with h show ?thesis by simp
  next
    case (Inr led')
    have again: "\<And>w'. fst (handle_asg_message q m led' w') = Inr led'"
      using handle_again [OF h [unfolded Inr]] by simp
    have "fst (process_asg_messages q (replicate n m) led' w1) = Inr led'"
      by (rule process_replicate_same) (simp_all add: again)
    with h Inr show ?thesis by simp
  qed
qed

section \<open>The resolver's timeout test\<close>

text \<open>
  Claim C1, on the code. With a budget of 100 seconds, one member still pending and no
  pagination token, \<^verbatim>\<open>wait_until_instances_active\<close> stops after its first poll, at second 0,
  with the line \<^verbatim>\<open>Reached timeout\<close> and without sleeping: the test
  \<^verbatim>\<open>next_execution_ts < start_time + timeout\<close> holds while the deadline is still ahead.
  With a budget of 10 seconds the same run sleeps until second 30, past its deadline, and
  polls again.
\<close>

theorem resolver_timeout_test_inverted:
  "wait_until_instances_active [JStr ''stack-MasterASG-1''] 100 ''r'' slow_start_world =
     Some (([], []),
       slow_start_world\<lparr>ec2_pages := [(0, running_page)],
         trace := [LogEnter ''wait_until_instances_active'' 100,
                   GetAllGroups [JStr ''stack-MasterASG-1''],
                   GetAllReservations [''i-1''] None,
                   LogError ''Reached timeout'']\<rparr>)
   \<and> wait_until_instances_active [JStr ''stack-MasterASG-1''] 10 ''r'' slow_start_world =
     Some (([(''i-1'', ''10.0.0.1'')], []),
       slow_start_world\<lparr>clock := 30, ec2_pages := [],
         trace := [LogEnter ''wait_until_instances_active'' 10,
                   GetAllGroups [JStr ''stack-MasterASG-1''],
                   GetAllReservations [''i-1''] None,
                   LogInfo ''not all instance info is available'',
                   Sleep 0 30,
                   GetAllReservations [''i-1''] None,
                   LogInfo ''received info of all instances'']\<rparr>)"
  by code_simp

section \<open>The role gate in \<^verbatim>\<open>main\<close>\<close>

text \<open>
  Claim C2, on the code. The role never becomes available, so the gate returns
  \<^verbatim>\<open>False\<close>; \<^verbatim>\<open>main\<close> drops that value, enters the worker phase, finds the broadcast
  and ends with exit status 0.
\<close>

theorem role_gate_result_ignored:
  "fst (check_instance_role_availability ''role'' 5 (emit [LogInfo ''main''] no_role_world))
     = Inr False
   \<and> main worker_cfg no_role_world =
     Some (0, quiet_world\<lparr>trace :=
           [LogInfo ''main'',
            LogEnter ''check_instance_role_availability'' 5,
            GetInstanceMetadata, LogInfo ''FAILED to get instance role'',
            LogInfo ''TIMEOUT while checking instance role'',
            LogEnter ''wait_for_worker_setup_message'' 5,
            ReceiveMessage ''wq'' 10 0,
            LogInfo ''received worker-setup success message'',
            SetupEnvVariables (JStr ''10.0.0.1'')
             (JArr [JStr ''10.0.0.1'', JStr ''10.0.0.2''])]\<rparr>)"
  by code_simp

section \<open>The membership the master builds\<close>

lemma build_membership_Inr:
  assumes "build_membership mi wi wm w = (Inr (mip, wips), w')"
  shows "\<exists>mid. mi = [(mid, mip)] \<and> wips = sort (mip # map snd wi)"
proof -
  from assms have len: "length mi = 1"
    by (auto simp: build_membership_def split: if_splits)
  then obtain mid ip where mi: "mi = [(mid, ip)]"
    by (cases mi) auto
  with assms show ?thesis
    by (auto simp: build_membership_def Let_def split: if_splits sum.splits)
qed

section \<open>A worker that never sees the broadcast\<close>

lemma worker_loop_None:
  "worker_setup_loop q start_time timeout next_ts w = (Inr None, w')
   \<Longrightarrow> last (trace w') = LogInfo ''did not receive worker-setup success''"
proof (induction q start_time timeout next_ts w rule: worker_setup_loop.induct)
  case (1 q start_time timeout next_execution_ts w)
  obtain recvd w1 where r: "receive_message q 10 0 w = (recvd, w1)"
    by (cases "receive_message q 10 0 w")
  obtain res w2 where s: "scan_worker_messages recvd w1 = (res, w2)"
    by (cases "scan_worker_messages recvd w1")
  let ?next = "next_execution_ts + SLEEP_INTERVAL_IN_SECS"
  from "1.prems" r s have res: "res = Inr None"
    by (subst (asm) worker_setup_loop.simps) (auto split: sum.splits option.splits)
  show ?case
  proof (cases "?next > start_time + timeout")
    case True
    with "1.prems" r s res have "w' = emit [LogInfo ''did not receive worker-setup success''] w2"
      by (subst (asm) worker_setup_loop.simps) (simp add: Let_def)
    then show ?thesis by (simp add: emit_def)
  next
    case False
    show ?thesis
    proof (cases "time_sleep (?next - clock w2) w2")
      case (Inl e)
      with "1.prems" r s res False show ?thesis
        by (subst (asm) worker_setup_loop.simps) (simp add: Let_def)
    next
      case (Inr w3)
      with "1.prems" r s res False
      have "worker_setup_loop q start_time timeout ?next w3 = (Inr None, w')"
        by (subst (asm) worker_setup_loop.simps) (simp add: Let_def)
      with "1.IH" [OF r [symmetric] refl s [symmetric, unfolded res] refl refl refl False Inr]
      show ?thesis by simp
    qed
  qed
qed

text \<open>
  Claim C10. When the role gate has returned and \<^verbatim>\<open>wait_for_worker_setup_message\<close> returns
  \<^verbatim>\<open>None\<close>, which it does only through its timeout branch (the last line it logs is the
  timeout line), the worker branch of \<^verbatim>\<open>main\<close> raises \<^verbatim>\<open>TypeError\<close> at the
  unpacking: the process ends with status 1 and the only thing added to the world is the
  line the outermost handler logs, so the test for \<^verbatim>\<open>None\<close> that follows the call and
  its error line are never reached.
\<close>

theorem worker_timeout_raises_before_none_check:
  assumes node: "lower (AWS_DL_NODE_TYPE cfg) = ''worker''"
    and gate: "check_instance_role_availability (AWS_DL_ROLE_NAME cfg)
                 (AWS_DL_WAITCONDITION_TIMEOUT cfg - AWS_DL_MASTERLAUNCH_TIMEOUT cfg)
                 (emit [LogInfo ''main''] w) = (Inr available, w1)"
    and wait: "wait_for_worker_setup_message (AWS_DL_WORKER_QUEUE cfg)
                 (AWS_DL_WAITCONDITION_TIMEOUT cfg - AWS_DL_MASTERLAUNCH_TIMEOUT cfg
                    - (clock w1 - clock w))
                 (AWS_REGION cfg) w1 = (Inr None, w2)"
  shows "main cfg w = Some (1, emit [LogException TypeError] w2)
         \<and> last (trace w2) = LogInfo ''did not receive worker-setup success''"
proof -
  from wait have "last (trace w2) = LogInfo ''did not receive worker-setup success''"
    unfolding wait_for_worker_setup_message_def Let_def by (rule worker_loop_None)
  moreover have "clock (emit [LogInfo ''main''] w) = clock w"
    by (simp add: emit_def)
  then have "main cfg w = Some (1, emit [LogException TypeError] w2)"
    using node gate wait by (simp add: main_def main_body_def Let_def)
  ultimately show ?thesis by simp
qed

theorem worker_timeout_raises_before_none_check_witness:
  "lower (AWS_DL_NODE_TYPE worker_cfg) = ''worker''
   \<and> main worker_cfg (quiet_world\<lparr>imds := [(2, role_metadata)]\<rparr>) =
       Some (1, quiet_world\<lparr>clock := 2, trace :=
          [LogInfo ''main'',
           LogEnter ''check_instance_role_availability'' 5,
           GetInstanceMetadata,
           LogInfo ''SUCCESS getting instance role'',
           LogEnter ''wait_for_worker_setup_message'' 3,
           ReceiveMessage ''wq'' 10 0,
           LogInfo ''did not receive worker-setup success'',
           LogException TypeError]\<rparr>)"
proof -
  let ?w = "quiet_world\<lparr>imds := [(2, role_metadata)]\<rparr>"
  let ?w1 = "quiet_world\<lparr>clock := 2, trace :=
          [LogInfo ''main'',
           LogEnter ''check_instance_role_availability'' 5,
           GetInstanceMetadata,
           LogInfo ''SUCCESS getting instance role'']\<rparr>"
  let ?w2 = "quiet_world\<lparr>clock := 2, trace :=
          [LogInfo ''main'',
           LogEnter ''check_instance_role_availability'' 5,
           GetInstanceMetadata,
           LogInfo ''SUCCESS getting instance role'',
           LogEnter ''wait_for_worker_setup_message'' 3,
           ReceiveMessage ''wq'' 10 0,
           LogInfo ''did not receive worker-setup success'']\<rparr>"
  have node: "lower (AWS_DL_NODE_TYPE worker_cfg) = ''worker''"
    by code_simp
  have gate: "check_instance_role_availability (AWS_DL_ROLE_NAME worker_cfg)
                 (AWS_DL_WAITCONDITION_TIMEOUT worker_cfg - AWS_DL_MASTERLAUNCH_TIMEOUT worker_cfg)
                 (emit [LogInfo ''main''] ?w) = (Inr True, ?w1)"
    by code_simp
  have wait: "wait_for_worker_setup_message (AWS_DL_WORKER_QUEUE worker_cfg)
                 (AWS_DL_WAITCONDITION_TIMEOUT worker_cfg - AWS_DL_MASTERLAUNCH_TIMEOUT worker_cfg
                    - (clock ?w1 - clock ?w))
                 (AWS_REGION worker_cfg) ?w1 = (Inr None, ?w2)"
    by code_simp
  have e: "emit [LogException TypeError] ?w2 = quiet_world\<lparr>clock := 2, trace :=
          [LogInfo ''main'',
           LogEnter ''check_instance_role_availability'' 5,
           GetInstanceMetadata,
           LogInfo ''SUCCESS getting instance role'',
           LogEnter ''wait_for_worker_setup_message'' 3,
           ReceiveMessage ''wq'' 10 0,
           LogInfo ''did not receive worker-setup success'',
           LogException TypeError]\<rparr>"
    by (simp add: emit_def quiet_world_def)
  from worker_timeout_raises_before_none_check [OF node gate wait] node e
  show ?thesis by simp
qed

section \<open>The number of masters\<close>

text \<open>
  Claim C9. On the master, when the role gate has returned, both launch notices are in
  and the resolver returns a number of master addresses other than one (none, or two and
  more), \<^verbatim>\<open>main\<close> ends with exit status 1, and the final world is the world the resolver
  left plus one error line: the resolver is not called again and nothing is sent.
\<close>

theorem master_count_not_one_is_fatal:
  assumes node: "lower (AWS_DL_NODE_TYPE cfg) = ''master''"
    and gate: "check_instance_role_availability (AWS_DL_ROLE_NAME cfg)
                 (AWS_DL_WAITCONDITION_TIMEOUT cfg - AWS_DL_MASTERLAUNCH_TIMEOUT cfg)
                 (emit [LogInfo ''main''] w) = (Inr available, w1)"
    and watch: "wait_until_asg_success (AWS_DL_MASTER_QUEUE cfg) (AWS_REGION cfg)
                 (AWS_DL_WAITCONDITION_TIMEOUT cfg - AWS_DL_MASTERLAUNCH_TIMEOUT cfg
                    - (clock w1 - clock w))
                 (emit [LogInfo ''setup_worker_metadata''] w1) = (Inr led, w2)"
    and led: "length led = 2"
    and roles: "assign_roles led (JNull, JNull) = Inr (master_asg_message, worker_asg_message)"
    and ma: "py_getitem master_asg_message ''asg'' = Inr master_asg"
    and wa: "py_getitem worker_asg_message ''asg'' = Inr worker_asg"
    and resolve: "wait_until_instances_active [master_asg, worker_asg]
                 (AWS_DL_WAITCONDITION_TIMEOUT cfg - AWS_DL_MASTERLAUNCH_TIMEOUT cfg
                    - (clock w1 - clock w) - (clock w2 - clock w1))
                 (AWS_REGION cfg) w2 = Some ((master_instances, worker_instances), w3)"
    and count: "length master_instances \<noteq> 1"
  shows "main cfg w = Some (1, emit [LogError ''expected single master''] w3)"
proof -
  have c0: "clock (emit [LogInfo ''main''] w) = clock w"
    and c1: "clock (emit [LogInfo ''setup_worker_metadata''] w1) = clock w1"
    by (simp_all add: emit_def)
  from count have bm: "build_membership master_instances worker_instances worker_asg_message w3
      = (Inl (SystemExit 1), emit [LogError ''expected single master''] w3)"
    by (simp add: build_membership_def)
  have "setup_worker_metadata
          (AWS_DL_WAITCONDITION_TIMEOUT cfg - AWS_DL_MASTERLAUNCH_TIMEOUT cfg - (clock w1 - clock w))
          (AWS_DL_MASTER_QUEUE cfg) (AWS_DL_STACK_ID cfg) (AWS_REGION cfg) w1
        = Some (Inl (SystemExit 1), emit [LogError ''expected single master''] w3)"
    using watch led roles ma wa resolve bm
    by (simp add: setup_worker_metadata_def Let_def c1)
  with node gate show ?thesis
    by (simp add: main_def main_body_def Let_def c0)
qed

theorem master_count_not_one_is_fatal_witness:
  "lower (AWS_DL_NODE_TYPE master_cfg) = ''master''
   \<and> main master_cfg two_masters_world =
       Some (1, quiet_world\<lparr>clock := 2,
          asg_groups := asg_groups two_masters_world,
          trace :=
           [LogInfo ''main'', LogEnter ''check_instance_role_availability'' 600,
            GetInstanceMetadata, LogInfo ''SUCCESS getting instance role'',
            LogInfo ''setup_worker_metadata'', LogEnter ''wait_until_asg_success'' 598,
            ReceiveMessage ''mq'' 10 60,
            LogInfo ''autosclaing_group succeeded'', DeleteMessage ''mq'' 1,
            LogInfo ''autosclaing_group succeeded'', DeleteMessage ''mq'' 2,
            LogInfo ''status of all autoscaling_groups received'',
            LogEnter ''wait_until_instances_active'' 598,
            GetAllGroups [JStr ''stack-MasterASG-1'', JStr ''stack-WorkerASG-1''],
            GetAllReservations [''i-1'', ''i-4''] None,
            LogInfo ''received info of all instances'',
            LogError ''expected single master'']\<rparr>)"
proof -
  let ?w = "two_masters_world"
  let ?T = "AWS_DL_WAITCONDITION_TIMEOUT master_cfg - AWS_DL_MASTERLAUNCH_TIMEOUT master_cfg"
  let ?g = "check_instance_role_availability (AWS_DL_ROLE_NAME master_cfg) ?T
              (emit [LogInfo ''main''] ?w)"
  let ?w1 = "snd ?g"
  let ?a = "wait_until_asg_success (AWS_DL_MASTER_QUEUE master_cfg) (AWS_REGION master_cfg)
              (?T - (clock ?w1 - clock ?w)) (emit [LogInfo ''setup_worker_metadata''] ?w1)"
  let ?w2 = "snd ?a"
  let ?led = "[(JStr ''stack-MasterASG-1'', the (body master_notice)),
               (JStr ''stack-WorkerASG-1'', the (body worker_notice))]"
  let ?r = "wait_until_instances_active [JStr ''stack-MasterASG-1'', JStr ''stack-WorkerASG-1'']
              (?T - (clock ?w1 - clock ?w) - (clock ?w2 - clock ?w1))
              (AWS_REGION master_cfg) ?w2"
  let ?mi = "[(''i-1'', ''10.0.0.1''), (''i-4'', ''10.0.0.4'')]"
  have node: "lower (AWS_DL_NODE_TYPE master_cfg) = ''master''"
    by code_simp
  have gate: "?g = (Inr True, ?w1)"
    by code_simp
  have watch: "?a = (Inr ?led, ?w2)"
    by code_simp
  have led: "length ?led = 2"
    by simp
  have roles: "assign_roles ?led (JNull, JNull)
                 = Inr (the (body master_notice), the (body worker_notice))"
    by code_simp
  have ma: "py_getitem (the (body master_notice)) ''asg'' = Inr (JStr ''stack-MasterASG-1'')"
    by code_simp
  have wa: "py_getitem (the (body worker_notice)) ''asg'' = Inr (JStr ''stack-WorkerASG-1'')"
    by code_simp
  have resolve: "?r = Some ((?mi, []), snd (the ?r))"
    by code_simp
  have count: "length ?mi \<noteq> 1"
    by simp
  have fin: "emit [LogError ''expected single master''] (snd (the ?r)) =
       quiet_world\<lparr>clock := 2,
          asg_groups := asg_groups two_masters_world,
          trace :=
           [LogInfo ''main'', LogEnter ''check_instance_role_availability'' 600,
            GetInstanceMetadata, LogInfo ''SUCCESS getting instance role'',
            LogInfo ''setup_worker_metadata'', LogEnter ''wait_until_asg_success'' 598,
            ReceiveMessage ''mq'' 10 60,
            LogInfo ''autosclaing_group succeeded'', DeleteMessage ''mq'' 1,
            LogInfo ''autosclaing_group succeeded'', DeleteMessage ''mq'' 2,
            LogInfo ''status of all autoscaling_groups received'',
            LogEnter ''wait_until_instances_active'' 598,
            GetAllGroups [JStr ''stack-MasterASG-1'', JStr ''stack-WorkerASG-1''],
            GetAllReservations [''i-1'', ''i-4''] None,
            LogInfo ''received info of all instances'',
            LogError ''expected single master'']\<rparr>"
    by code_simp
  from master_count_not_one_is_fatal [OF node gate watch led roles ma wa resolve count] node fin
  show ?thesis by simp
qed

section \<open>What the launch watcher does with a message\<close>

lemma merge_notice_Inl:
  "merge_notice content led = Inl e \<Longrightarrow> field_read_fails content \<and> (e = KeyError \<or> e = TypeError)"
  by (cases content)
     (auto simp: merge_notice_def field_read_fails_def py_getitem_def dict_key_def
           split: if_splits sum.splits option.splits json.splits)

lemma merge_notice_Inr:
  "merge_notice content led = Inr x \<Longrightarrow> \<not> field_read_fails content"
  by (cases content)
     (auto simp: merge_notice_def field_read_fails_def py_getitem_def dict_key_def
           split: if_splits sum.splits option.splits json.splits)

lemma handle_asg_message_parsed:
  assumes "body m = Some content"
  shows "(field_read_fails content \<longrightarrow>
            (\<exists>e. (e = KeyError \<or> e = TypeError) \<and>
                 handle_asg_message q m led w
                   = (Inr led, emit [LogException e, LogError ''msg''] w)))
         \<and> (\<not> field_read_fails content \<longrightarrow>
            (\<exists>led' logs. handle_asg_message q m led w
                   = (Inr led', delete_message q m (emit logs w))))"
proof (cases "merge_notice content led")
  case (Inl e)
  from merge_notice_Inl [OF Inl] assms Inl show ?thesis
    by (auto simp: handle_asg_message_def)
next
  case (Inr x)
  obtain led' logs where "x = (led', logs)" by (cases x)
  with merge_notice_Inr [OF Inr] assms Inr show ?thesis
    by (auto simp: handle_asg_message_def)
qed

lemma process_asg_messages_no_raise:
  "\<forall>m\<in>set ms. body m \<noteq> None \<Longrightarrow> \<exists>led' w'. process_asg_messages q ms led w = (Inr led', w')"
proof (induction ms arbitrary: led w)
  case Nil
  then show ?case by simp
next
  case (Cons m ms)
  then obtain content where b: "body m = Some content" by auto
  from handle_asg_message_parsed [OF b, of q led w]
  obtain led1 w1 where "handle_asg_message q m led w = (Inr led1, w1)"
    by (cases "field_read_fails content") auto
  with Cons show ?case by simp
qed

text \<open>
  Claim C3, as the code has it. Of a batch whose bodies are all JSON the loop handles
  every message without raising. A message on which a field read fails is logged and left
  on the queue, with the ledger as it was. Every other message is deleted: the success
  notice that was merged, and also the duplicate, the notice whose status is not
  \<^verbatim>\<open>success\<close>, the message of another event and \<^verbatim>\<open>null\<close>.
\<close>

theorem asg_message_fate:
  assumes "\<forall>m\<in>set ms. body m \<noteq> None"
  shows "(\<exists>led' w'. process_asg_messages q ms led w = (Inr led', w'))
         \<and> (\<forall>m\<in>set ms. \<forall>led w.
               (field_read_fails (the (body m)) \<longrightarrow>
                  (\<exists>e. (e = KeyError \<or> e = TypeError) \<and>
                       handle_asg_message q m led w
                         = (Inr led, emit [LogException e, LogError ''msg''] w)))
               \<and> (\<not> field_read_fails (the (body m)) \<longrightarrow>
                  (\<exists>led' logs. handle_asg_message q m led w
                         = (Inr led', delete_message q m (emit logs w)))))"
proof (intro conjI ballI allI)
  show "\<exists>led' w'. process_asg_messages q ms led w = (Inr led', w')"
    using assms by (rule process_asg_messages_no_raise)
next
  fix m led w
  assume "m \<in> set ms"
  with assms obtain content where b: "body m = Some content" by auto
  from handle_asg_message_parsed [OF b, of q led w] b
  show "field_read_fails (the (body m)) \<longrightarrow>
          (\<exists>e. (e = KeyError \<or> e = TypeError) \<and>
               handle_asg_message q m led w
                 = (Inr led, emit [LogException e, LogError ''msg''] w))"
    by simp
  from handle_asg_message_parsed [OF b, of q led w] b
  show "\<not> field_read_fails (the (body m)) \<longrightarrow>
          (\<exists>led' logs. handle_asg_message q m led w
                 = (Inr led', delete_message q m (emit logs w)))"
    by simp
qed

text \<open>
  Against claim C3 as stated: a notice whose status is \<^verbatim>\<open>failure\<close> is deleted from the
  queue although nothing was merged into the ledger.
\<close>

theorem failure_notice_is_deleted:
  "handle_asg_message ''mq'' failure_notice [] quiet_world
     = (Inr [], quiet_world\<lparr>trace := [DeleteMessage ''mq'' (msg_id failure_notice)]\<rparr>)
   \<and> body failure_notice = Some (JObj [(''event'', JStr ''asg-setup''),
        (''status'', JStr ''failure''), (''asg'', JStr ''stack-WorkerASG-1'')])"
  by code_simp

theorem asg_message_fate_witness:
  "body untagged_message \<noteq> None \<and> body failure_notice \<noteq> None \<and> body master_notice \<noteq> None
   \<and> (\<exists>led' w'. process_asg_messages ''mq''
                    [untagged_message, failure_notice, master_notice] [] quiet_world
                  = (Inr led', w'))
   \<and> field_read_fails (the (body untagged_message))
   \<and> (\<exists>e. (e = KeyError \<or> e = TypeError) \<and>
          handle_asg_message ''mq'' untagged_message [] quiet_world
            = (Inr [], emit [LogException e, LogError ''msg''] quiet_world))
   \<and> \<not> field_read_fails (the (body master_notice))
   \<and> (\<exists>led' logs. handle_asg_message ''mq'' master_notice [] quiet_world
            = (Inr led', delete_message ''mq'' master_notice (emit logs quiet_world)))"
proof -
  have b: "body untagged_message \<noteq> None" "body failure_notice \<noteq> None"
      "body master_notice \<noteq> None"
    by (simp_all add: untagged_message_def failure_notice_def master_notice_def)
  then have h: "\<forall>m\<in>set [untagged_message, failure_notice, master_notice]. body m \<noteq> None"
    by simp
  have f1: "field_read_fails (the (body untagged_message))"
    by code_simp
  have f2: "\<not> field_read_fails (the (body master_notice))"
    by code_simp
  note fate = asg_message_fate [OF h, of "''mq''" "[]" quiet_world]
  from fate have run: "\<exists>led' w'. process_asg_messages ''mq''
                    [untagged_message, failure_notice, master_notice] [] quiet_world
                  = (Inr led', w')"
    by (rule conjunct1)
  from fate f1 have u: "\<exists>e. (e = KeyError \<or> e = TypeError) \<and>
          handle_asg_message ''mq'' untagged_message [] quiet_world
            = (Inr [], emit [LogException e, LogError ''msg''] quiet_world)"
    by simp
  from fate f2 have m: "\<exists>led' logs. handle_asg_message ''mq'' master_notice [] quiet_world
            = (Inr led', delete_message ''mq'' master_notice (emit logs quiet_world))"
    by simp
  from b run f1 u f2 m show ?thesis by blast
qed

text \<open>
  A body that is not JSON is outside the theorem above: \<^verbatim>\<open>json.loads\<close> raises
  \<^verbatim>\<open>ValueError\<close>, which the handler does not name, and the exception leaves the loop.
\<close>

lemma garbage_message_raises:
  "process_asg_messages ''mq'' [garbage_message, master_notice] [] quiet_world
     = (Inl ValueError, quiet_world)"
  by code_simp

section \<open>The worker reads the broadcast and leaves it on the queue\<close>



lemma emit_emit: "emit b (emit a w) = emit (a @ b) w"
  by (simp add: emit_def)

lemma emit_Nil: "emit [] w = w"
  by (simp add: emit_def)




lemma receive_message_stream:
  assumes "receive_message q n vis w = (recvd, w1)"
  shows "trace w1 = trace w @ [ReceiveMessage q n vis]"
    and "received_stream n w = recvd @ received_stream n w1"
  using assms
  by (auto simp: receive_message_def received_stream_def split: list.splits)

lemma time_sleep_Inr:
  assumes "time_sleep d w = Inr w'"
  shows "trace w' = trace w @ [Sleep (clock w) d]" and "sqs_inbox w' = sqs_inbox w"
  using assms by (auto simp: time_sleep_def split: if_splits)






text \<open>
  The theorem speaks of JSON bodies. On a body that is not JSON \<^verbatim>\<open>json.loads\<close> raises
  \<^verbatim>\<open>ValueError\<close>, which the handler of the loop does not name, so the wait ends there
  with that exception, also when a broadcast follows in the same batch.
\<close>

lemma garbage_before_broadcast_raises:
  "fst (wait_for_worker_setup_message ''wq'' 5 ''r''
          (quiet_world\<lparr>sqs_inbox := [(0, [garbage_message, broadcast])]\<rparr>))
     = Inl ValueError"
  by code_simp

section \<open>When the launch watcher gives up\<close>

lemma handle_asg_message_world:
  "\<exists>evs. snd (handle_asg_message q m led w) = emit evs w \<and> list_all (sleep_within D) evs"
proof (cases "body m")
  case None
  then show ?thesis
    by (auto simp: handle_asg_message_def emit_Nil intro: exI [of _ "[]"])
next
  case (Some content)
  show ?thesis
  proof (cases "merge_notice content led")
    case (Inl e)
    with Some show ?thesis
      by (auto simp: handle_asg_message_def emit_Nil
               intro: exI [of _ "[]"] exI [of _ "[LogException e, LogError ''msg'']"])
  next
    case (Inr x)
    obtain led' logs where x: "x = (led', logs)" by (cases x)
    with Inr have "logs = [] \<or> (\<exists>s. logs = [LogInfo s])"
      by (auto simp: merge_notice_def split: if_splits sum.splits)
    then have "list_all (sleep_within D) (logs @ [DeleteMessage q (msg_id m)])"
      by auto
    moreover have "snd (handle_asg_message q m led w)
                   = emit (logs @ [DeleteMessage q (msg_id m)]) w"
      using Some Inr x by (simp add: handle_asg_message_def delete_message_def emit_def)
    ultimately show ?thesis by blast
  qed
qed

lemma process_asg_messages_world:
  "\<exists>evs. snd (process_asg_messages q ms led w) = emit evs w \<and> list_all (sleep_within D) evs"
proof (induction ms arbitrary: led w)
  case Nil
  show ?case by (auto simp: emit_Nil intro: exI [of _ "[]"])
next
  case (Cons m ms)
  obtain r w1 where h: "handle_asg_message q m led w = (r, w1)"
    by (cases "handle_asg_message q m led w")
  from handle_asg_message_world [of q m led w D] h obtain evs where
    w1: "w1 = emit evs w" and nd: "list_all (sleep_within D) evs" by auto
  show ?case
  proof (cases r)
    case (Inl e)
    with h w1 nd show ?thesis by auto
  next
    case (Inr led1)
    from Cons.IH [of led1 w1] obtain evs' where
      "snd (process_asg_messages q ms led1 w1) = emit evs' w1" "list_all (sleep_within D) evs'"
      by blast
    with h Inr w1 nd have "snd (process_asg_messages q (m # ms) led w) = emit (evs @ evs') w
        \<and> list_all (sleep_within D) (evs @ evs')"
      by (simp add: emit_emit)
    then show ?thesis by blast
  qed
qed

lemma receive_message_clock:
  assumes "receive_message q n vis w = (recvd, w1)"
    and "0 \<le> L" "\<forall>p\<in>set (sqs_inbox w). 0 \<le> fst p \<and> fst p \<le> L"
  shows "clock w \<le> clock w1" "clock w1 \<le> clock w + L"
    and "\<forall>p\<in>set (sqs_inbox w1). 0 \<le> fst p \<and> fst p \<le> L"
  using assms by (auto simp: receive_message_def split: list.splits)

lemma time_sleep_clock:
  assumes "time_sleep d w = Inr w'"
  shows "clock w' = clock w + d" "0 \<le> d"
  using assms by (auto simp: time_sleep_def split: if_splits)

lemma asg_success_loop_timing:
  "clock w = next_ts \<Longrightarrow> next_ts \<le> start_time + timeout \<Longrightarrow> 0 \<le> L
   \<Longrightarrow> \<forall>p\<in>set (sqs_inbox w). 0 \<le> fst p \<and> fst p \<le> L
   \<Longrightarrow> (\<exists>evs. trace (snd (asg_success_loop q start_time timeout next_ts led w)) = trace w @ evs
              \<and> list_all (sleep_within (start_time + timeout)) evs)
       \<and> (\<forall>led'. fst (asg_success_loop q start_time timeout next_ts led w) = Inr led'
                   \<and> length led' \<noteq> 2 \<longrightarrow>
              start_time + timeout - 30 < clock (snd (asg_success_loop q start_time timeout next_ts led w))
              \<and> clock (snd (asg_success_loop q start_time timeout next_ts led w))
                   \<le> start_time + timeout + L)"
proof (induction q start_time timeout next_ts led w rule: asg_success_loop.induct)
  case (1 q start_time timeout next_execution_ts led w)
  let ?D = "start_time + timeout"
  let ?next = "next_execution_ts + SLEEP_INTERVAL_IN_SECS"
  obtain recvd w1 where r: "receive_message q 10 60 w = (recvd, w1)"
    by (cases "receive_message q 10 60 w")
  obtain res w2 where p: "process_asg_messages q recvd led w1 = (res, w2)"
    by (cases "process_asg_messages q recvd led w1")
  note rc = receive_message_clock [OF r "1.prems"(3,4)]
  note rt = receive_message_stream(1) [OF r]
  from process_asg_messages_world [of q recvd led w1 ?D] p obtain evs where
    w2: "w2 = emit evs w1" and nd: "list_all (sleep_within ?D) evs" by auto
  have t2: "trace w2 = trace w @ ReceiveMessage q 10 60 # evs"
    using w2 rt by (simp add: emit_def)
  have nd2: "list_all (sleep_within ?D) (ReceiveMessage q 10 60 # evs)"
    using nd by simp
  have c2: "clock w2 = clock w1" and i2: "sqs_inbox w2 = sqs_inbox w1"
    using w2 by (simp_all add: emit_def)
  show ?case
  proof (cases res)
    case (Inl e)
    with r p have "asg_success_loop q start_time timeout next_execution_ts led w = (Inl e, w2)"
      by (subst asg_success_loop.simps) simp
    with t2 nd2 show ?thesis by auto
  next
    case (Inr led')
    show ?thesis
    proof (cases "length led' = 2")
      case True
      with Inr r p have "asg_success_loop q start_time timeout next_execution_ts led w
          = (Inr led', emit [LogInfo ''status of all autoscaling_groups received''] w2)"
        by (subst asg_success_loop.simps) simp
      moreover have "list_all (sleep_within ?D)
          (ReceiveMessage q 10 60 # evs @ [LogInfo ''status of all autoscaling_groups received''])"
        using nd by simp
      ultimately show ?thesis using t2 True by (auto simp: emit_def)
    next
      case False
      show ?thesis
      proof (cases "?next > ?D")
        case True
        with False Inr r p have run: "asg_success_loop q start_time timeout next_execution_ts led w
            = (Inr led', emit [LogInfo ''timeout while checking asg status''] w2)"
          by (subst asg_success_loop.simps) (simp add: Let_def)
        have nd3: "list_all (sleep_within ?D)
            (ReceiveMessage q 10 60 # evs @ [LogInfo ''timeout while checking asg status''])"
          using nd by simp
        have "?D - 30 < clock w2" "clock w2 \<le> ?D + L"
          using True rc(1,2) c2 "1.prems"(1,2) by (simp_all add: SLEEP_INTERVAL_IN_SECS_def)
        with run nd3 t2 show ?thesis by (auto simp: emit_def)
      next
        case late: False
        show ?thesis
        proof (cases "time_sleep (?next - clock w2) w2")
          case (Inl e)
          with late False Inr r p
          have "asg_success_loop q start_time timeout next_execution_ts led w = (Inl e, w2)"
            by (subst asg_success_loop.simps) (simp add: Let_def)
          with t2 nd2 show ?thesis by auto
        next
          case sl: (Inr w3)
          with late False Inr r p
          have run: "asg_success_loop q start_time timeout next_execution_ts led w
              = asg_success_loop q start_time timeout ?next led' w3"
            by (subst asg_success_loop.simps) (simp add: Let_def)
          note tc = time_sleep_clock [OF sl]
          note tt = time_sleep_Inr [OF sl]
          have c3: "clock w3 = ?next" using tc(1) by simp
          have n3: "?next \<le> ?D" using late by simp
          have i3: "\<forall>p\<in>set (sqs_inbox w3). 0 \<le> fst p \<and> fst p \<le> L"
            using tt(2) i2 rc(3) by simp
          have sw: "sleep_within ?D (Sleep (clock w2) (?next - clock w2))"
            using tc(2) n3 rc(1) c2 "1.prems"(1) by simp
          from "1.IH" [OF r [symmetric] refl p [symmetric, unfolded Inr] refl False refl late sl
                          c3 n3 "1.prems"(3) i3]
          obtain evs3 where
              t3: "trace (snd (asg_success_loop q start_time timeout ?next led' w3)) = trace w3 @ evs3"
            and nd3: "list_all (sleep_within ?D) evs3"
            and b3: "\<forall>l. fst (asg_success_loop q start_time timeout ?next led' w3) = Inr l
                   \<and> length l \<noteq> 2 \<longrightarrow>
              ?D - 30 < clock (snd (asg_success_loop q start_time timeout ?next led' w3))
              \<and> clock (snd (asg_success_loop q start_time timeout ?next led' w3)) \<le> ?D + L"
            by blast
          have "trace (snd (asg_success_loop q start_time timeout next_execution_ts led w))
                  = trace w @ (ReceiveMessage q 10 60 # evs
                                 @ Sleep (clock w2) (?next - clock w2) # evs3)"
            using run t3 tt(1) t2 by simp
          moreover have "list_all (sleep_within ?D)
                  (ReceiveMessage q 10 60 # evs @ Sleep (clock w2) (?next - clock w2) # evs3)"
            using nd nd3 sw by simp
          ultimately show ?thesis using b3 run by auto
        qed
      qed
    qed
  qed
qed

section \<open>Redelivered launch notices\<close>

lemma handle_asg_message_fst_world:
  "fst (handle_asg_message q m led w) = fst (handle_asg_message q m led w')"
  by (auto simp: handle_asg_message_def split: option.splits sum.splits prod.splits)

lemma process_asg_messages_fst_world:
  "fst (process_asg_messages q ms led w) = fst (process_asg_messages q ms led w')"
proof (induction ms arbitrary: led w w')
  case Nil
  show ?case by simp
next
  case (Cons m ms)
  obtain r w1 where h: "handle_asg_message q m led w = (r, w1)"
    by (cases "handle_asg_message q m led w")
  obtain r' w1' where h': "handle_asg_message q m led w' = (r', w1')"
    by (cases "handle_asg_message q m led w'")
  from handle_asg_message_fst_world [of q m led w w'] h h' have "r' = r" by simp
  with h h' Cons.IH show ?case by (cases r) auto
qed

lemma process_asg_messages_append:
  "process_asg_messages q (xs @ ys) led w =
     (case process_asg_messages q xs led w of
        (Inl e, w') \<Rightarrow> (Inl e, w')
      | (Inr led', w') \<Rightarrow> process_asg_messages q ys led' w')"
  by (induction xs arbitrary: led w) (auto split: prod.splits sum.splits)

lemma handle_known_group:
  assumes "body m = Some c"
    and "py_getitem c ''event'' = Inr (JStr ''asg-setup'')"
    and "py_getitem c ''status'' = Inr (JStr ''success'')"
    and "py_getitem c ''asg'' = Inr a" and "dict_key a = Inr k"
    and "k \<in> fst ` set led"
  shows "handle_asg_message q m led w
           = (Inr led, delete_message q m (emit [LogInfo ''received duplicate sqs message''] w))"
proof -
  from assms(2) have "c \<noteq> JNull" by (auto simp: py_getitem_def)
  with assms show ?thesis
    by (simp add: handle_asg_message_def merge_notice_def)
qed

lemma handle_new_group:
  assumes "body m = Some c"
    and "py_getitem c ''event'' = Inr (JStr ''asg-setup'')"
    and "py_getitem c ''status'' = Inr (JStr ''success'')"
    and "py_getitem c ''asg'' = Inr a" and "dict_key a = Inr k"
    and "k \<notin> fst ` set led"
  shows "handle_asg_message q m led w
           = (Inr (led @ [(k, c)]),
              delete_message q m (emit [LogInfo ''autosclaing_group succeeded''] w))"
proof -
  from assms(2) have "c \<noteq> JNull" by (auto simp: py_getitem_def)
  with assms show ?thesis
    by (simp add: handle_asg_message_def merge_notice_def)
qed

lemma redelivery_changes_nothing:
  "fst (process_asg_messages q (before @ m # between @ m # after) led w)
     = fst (process_asg_messages q (before @ m # between @ after) led w)"
proof -
  obtain r0 w0 where p0: "process_asg_messages q before led w = (r0, w0)"
    by (cases "process_asg_messages q before led w")
  show ?thesis
  proof (cases r0)
    case (Inl e)
    with p0 show ?thesis by (simp add: process_asg_messages_append)
  next
    case (Inr led0)
    obtain r1 w1 where h1: "handle_asg_message q m led0 w0 = (r1, w1)"
      by (cases "handle_asg_message q m led0 w0")
    show ?thesis
    proof (cases r1)
      case (Inl e)
      with p0 Inr h1 show ?thesis by (simp add: process_asg_messages_append)
    next
      case r1: (Inr led1)
      obtain r2 w2 where p2: "process_asg_messages q between led1 w1 = (r2, w2)"
        by (cases "process_asg_messages q between led1 w1")
      show ?thesis
      proof (cases r2)
        case (Inl e)
        with p0 Inr h1 r1 p2 show ?thesis by (simp add: process_asg_messages_append)
      next
        case r2: (Inr led2)
        from process_keys [OF p2 [unfolded r2]]
        have sub: "set (map fst led1) \<subseteq> set (map fst led2)" .
        from handle_again [OF h1 [unfolded r1] sub, of w2]
        obtain w3 where h3: "handle_asg_message q m led2 w2 = (Inr led2, w3)"
          by (cases "handle_asg_message q m led2 w2") auto
        have "fst (process_asg_messages q (before @ m # between @ m # after) led w)
                = fst (process_asg_messages q after led2 w3)"
          using p0 Inr h1 r1 p2 r2 h3 by (simp add: process_asg_messages_append)
        also have "\<dots> = fst (process_asg_messages q after led2 w2)"
          by (rule process_asg_messages_fst_world)
        also have "\<dots> = fst (process_asg_messages q (before @ m # between @ after) led w)"
          using p0 Inr h1 r1 p2 r2 by (simp add: process_asg_messages_append)
        finally show ?thesis .
      qed
    qed
  qed
qed

lemma merge_notice_distinct:
  "distinct (map fst led) \<Longrightarrow> merge_notice c led = Inr (led', logs) \<Longrightarrow> distinct (map fst led')"
  by (auto simp: merge_notice_def split: if_splits sum.splits)

lemma handle_asg_message_distinct:
  "distinct (map fst led) \<Longrightarrow> handle_asg_message q m led w = (Inr led', w')
   \<Longrightarrow> distinct (map fst led')"
  by (auto simp: handle_asg_message_def split: option.splits sum.splits if_splits
           dest: merge_notice_distinct)

lemma process_asg_messages_distinct:
  "distinct (map fst led) \<Longrightarrow> process_asg_messages q ms led w = (Inr led', w')
   \<Longrightarrow> distinct (map fst led')"
proof (induction ms arbitrary: led w)
  case Nil
  then show ?case by simp
next
  case (Cons m ms)
  obtain r w1 where h: "handle_asg_message q m led w = (r, w1)"
    by (cases "handle_asg_message q m led w")
  with Cons.prems obtain led1 where r: "r = Inr led1"
    by (cases r) auto
  from handle_asg_message_distinct [OF Cons.prems(1) h [unfolded r]]
  have "distinct (map fst led1)" .
  with Cons.IH [of led1 w1] Cons.prems(2) h r show ?case by simp
qed

lemma asg_success_loop_distinct:
  "distinct (map fst led) \<Longrightarrow> fst (asg_success_loop q start_time timeout next_ts led w) = Inr led'
   \<Longrightarrow> distinct (map fst led')"
proof (induction q start_time timeout next_ts led w rule: asg_success_loop.induct)
  case (1 q start_time timeout next_execution_ts led w)
  let ?next = "next_execution_ts + SLEEP_INTERVAL_IN_SECS"
  obtain recvd w1 where r: "receive_message q 10 60 w = (recvd, w1)"
    by (cases "receive_message q 10 60 w")
  obtain res w2 where p: "process_asg_messages q recvd led w1 = (res, w2)"
    by (cases "process_asg_messages q recvd led w1")
  show ?case
  proof (cases res)
    case (Inl e)
    with r p "1.prems"(2) show ?thesis
      by (subst (asm) asg_success_loop.simps) simp
  next
    case (Inr led1)
    from process_asg_messages_distinct [OF "1.prems"(1) p [unfolded Inr]]
    have d1: "distinct (map fst led1)" .
    show ?thesis
    proof (cases "length led1 = 2 \<or> ?next > start_time + timeout")
      case True
      with Inr r p "1.prems"(2) have "led' = led1"
        by (subst (asm) asg_success_loop.simps) (auto simp: Let_def split: if_splits)
      with d1 show ?thesis by simp
    next
      case False
      then have f1: "length led1 \<noteq> 2" and f2: "\<not> ?next > start_time + timeout" by simp_all
      show ?thesis
      proof (cases "time_sleep (?next - clock w2) w2")
        case (Inl e)
        with f1 f2 Inr r p "1.prems"(2) show ?thesis
          by (subst (asm) asg_success_loop.simps) (simp add: Let_def)
      next
        case sl: (Inr w3)
        with f1 f2 Inr r p "1.prems"(2)
        have "fst (asg_success_loop q start_time timeout ?next led1 w3) = Inr led'"
          by (subst (asm) asg_success_loop.simps) (simp add: Let_def)
        from "1.IH" [OF r [symmetric] refl p [symmetric, unfolded Inr] refl f1 refl f2 sl d1 this]
        show ?thesis .
      qed
    qed
  qed
qed

lemma wait_until_asg_success_distinct:
  "fst (wait_until_asg_success q r timeout w) = Inr led \<Longrightarrow> distinct (map fst led)"
  unfolding wait_until_asg_success_def Let_def
  by (rule asg_success_loop_distinct [of "[]"]) simp_all

text \<open>
  Claim C7. The ledger is merged first-write-wins per group, in every poll:
  \<^item> a batch of \<open>n + 1\<close> copies of a message leaves the ledger one copy leaves;
  \<^item> a second delivery of a message, anywhere after the first and with any messages in
    between, does not change the ledger the batch ends with;
  \<^item> a success notice for a group the ledger already holds leaves the ledger as it is,
    whatever the world (so also in a later poll), and is deleted; for a new group it adds
    exactly one entry;
  \<^item> a ledger without a repeated group stays so through a batch and loses no group;
  \<^item> the ledger \<^verbatim>\<open>wait_until_asg_success\<close> returns holds no group twice.
\<close>

theorem ledger_merge_idempotent:
  "fst (process_asg_messages q (replicate (Suc n) m) led w)
     = fst (process_asg_messages q [m] led w)
   \<and> fst (process_asg_messages q (before @ m # between @ m # after) led w)
       = fst (process_asg_messages q (before @ m # between @ after) led w)
   \<and> (body m = Some c \<and> py_getitem c ''event'' = Inr (JStr ''asg-setup'')
        \<and> py_getitem c ''status'' = Inr (JStr ''success'')
        \<and> py_getitem c ''asg'' = Inr a \<and> dict_key a = Inr k \<longrightarrow>
        (if k \<in> fst ` set led
         then handle_asg_message q m led w
                = (Inr led,
                   delete_message q m (emit [LogInfo ''received duplicate sqs message''] w))
         else handle_asg_message q m led w
                = (Inr (led @ [(k, c)]),
                   delete_message q m (emit [LogInfo ''autosclaing_group succeeded''] w))))
   \<and> (distinct (map fst led) \<and> process_asg_messages q ms led w = (Inr led', w') \<longrightarrow>
        distinct (map fst led') \<and> fst ` set led \<subseteq> fst ` set led')
   \<and> (fst (wait_until_asg_success q r timeout w) = Inr led' \<longrightarrow> distinct (map fst led'))"
proof (intro conjI impI)
  show "fst (process_asg_messages q (replicate (Suc n) m) led w)
     = fst (process_asg_messages q [m] led w)"
    by (rule ledger_merge_replicate)
  show "fst (process_asg_messages q (before @ m # between @ m # after) led w)
       = fst (process_asg_messages q (before @ m # between @ after) led w)"
    by (rule redelivery_changes_nothing)
next
  assume "body m = Some c \<and> py_getitem c ''event'' = Inr (JStr ''asg-setup'')
        \<and> py_getitem c ''status'' = Inr (JStr ''success'')
        \<and> py_getitem c ''asg'' = Inr a \<and> dict_key a = Inr k"
  then show "if k \<in> fst ` set led
         then handle_asg_message q m led w
                = (Inr led,
                   delete_message q m (emit [LogInfo ''received duplicate sqs message''] w))
         else handle_asg_message q m led w
                = (Inr (led @ [(k, c)]),
                   delete_message q m (emit [LogInfo ''autosclaing_group succeeded''] w))"
    using handle_known_group [of m c a k led q w] handle_new_group [of m c a k led q w]
    by simp
next
  assume a: "distinct (map fst led) \<and> process_asg_messages q ms led w = (Inr led', w')"
  then show "distinct (map fst led')"
    using process_asg_messages_distinct by blast
  from a process_keys [of q ms led w led' w'] show "fst ` set led \<subseteq> fst ` set led'"
    by simp
next
  assume "fst (wait_until_asg_success q r timeout w) = Inr led'"
  then show "distinct (map fst led')"
    by (rule wait_until_asg_success_distinct)
qed

theorem ledger_merge_idempotent_witness:
  "body master_notice = Some (the (body master_notice))
   \<and> py_getitem (the (body master_notice)) ''event'' = Inr (JStr ''asg-setup'')
   \<and> py_getitem (the (body master_notice)) ''status'' = Inr (JStr ''success'')
   \<and> py_getitem (the (body master_notice)) ''asg'' = Inr (JStr ''stack-MasterASG-1'')
   \<and> dict_key (JStr ''stack-MasterASG-1'') = Inr (JStr ''stack-MasterASG-1'')
   \<and> handle_asg_message ''mq'' master_notice
         [(JStr ''stack-MasterASG-1'', the (body master_notice))] quiet_world
       = (Inr [(JStr ''stack-MasterASG-1'', the (body master_notice))],
          delete_message ''mq'' master_notice
            (emit [LogInfo ''received duplicate sqs message''] quiet_world))
   \<and> distinct (map fst [(JStr ''stack-MasterASG-1'', the (body master_notice))])
   \<and> fst (process_asg_messages ''mq'' [worker_notice, master_notice]
             [(JStr ''stack-MasterASG-1'', the (body master_notice))] quiet_world)
       = Inr [(JStr ''stack-MasterASG-1'', the (body master_notice)),
              (JStr ''stack-WorkerASG-1'', the (body worker_notice))]
   \<and> distinct (map fst [(JStr ''stack-MasterASG-1'', the (body master_notice)),
                         (JStr ''stack-WorkerASG-1'', the (body worker_notice))])
   \<and> fst (wait_until_asg_success ''mq'' ''r'' 600 redelivery_world)
       = Inr [(JStr ''stack-MasterASG-1'', the (body master_notice)),
              (JStr ''stack-WorkerASG-1'', the (body worker_notice))]
   \<and> fst (process_asg_messages ''mq''
             ([] @ master_notice # [worker_notice] @ master_notice # []) [] quiet_world)
       = fst (process_asg_messages ''mq'' ([] @ master_notice # [worker_notice] @ []) []
                quiet_world)"
proof -
  let ?c = "the (body master_notice)"
  let ?k = "JStr ''stack-MasterASG-1''"
  let ?L1 = "[(?k, ?c)]"
  let ?L2 = "[(?k, ?c), (JStr ''stack-WorkerASG-1'', the (body worker_notice))]"
  have b: "body master_notice = Some ?c"
    by (simp add: master_notice_def)
  have e: "py_getitem ?c ''event'' = Inr (JStr ''asg-setup'')"
    and s: "py_getitem ?c ''status'' = Inr (JStr ''success'')"
    and a: "py_getitem ?c ''asg'' = Inr ?k"
    and d: "dict_key ?k = Inr ?k"
    by code_simp+
  have known: "?k \<in> fst ` set ?L1"
    by simp
  have d1: "distinct (map fst ?L1)"
    by simp
  obtain w' where run: "process_asg_messages ''mq'' [worker_notice, master_notice] ?L1 quiet_world
      = (Inr ?L2, w')"
  proof -
    have "fst (process_asg_messages ''mq'' [worker_notice, master_notice] ?L1 quiet_world)
            = Inr ?L2"
      by code_simp
    then show ?thesis
      using that by (cases "process_asg_messages ''mq'' [worker_notice, master_notice] ?L1
                               quiet_world") auto
  qed
  have whole: "fst (wait_until_asg_success ''mq'' ''r'' 600 redelivery_world) = Inr ?L2"
    by code_simp
  note t1 = ledger_merge_idempotent
    [of "''mq''" 0 master_notice ?L1 quiet_world "[]" "[worker_notice]" "[]" ?c ?k ?k
        "[worker_notice, master_notice]" ?L2 w' "''r''" 600]
  note t2 = ledger_merge_idempotent
    [of "''mq''" 0 master_notice "[]" quiet_world "[]" "[worker_notice]" "[]" ?c ?k ?k
        "[]" "[]" quiet_world "''r''" 600]
  note t3 = ledger_merge_idempotent
    [of "''mq''" 0 master_notice "[]" redelivery_world "[]" "[worker_notice]" "[]" ?c ?k ?k
        "[]" ?L2 quiet_world "''r''" 600]
  from t1 b e s a d known have h: "handle_asg_message ''mq'' master_notice ?L1 quiet_world
       = (Inr ?L1, delete_message ''mq'' master_notice
            (emit [LogInfo ''received duplicate sqs message''] quiet_world))"
    by simp
  from t1 d1 run have d2: "distinct (map fst ?L2)"
    by blast
  from t3 whole have d3: "distinct (map fst ?L2)"
    by blast
  from t2 have re: "fst (process_asg_messages ''mq''
             ([] @ master_notice # [worker_notice] @ master_notice # []) [] quiet_world)
       = fst (process_asg_messages ''mq'' ([] @ master_notice # [worker_notice] @ []) []
                quiet_world)"
    by blast
  from run have r2: "fst (process_asg_messages ''mq'' [worker_notice, master_notice] ?L1
                            quiet_world) = Inr ?L2"
    by simp
  from b e s a d h d1 r2 d2 whole re show ?thesis
    by (intro conjI)
qed

section \<open>The membership is the sorted list of the resolved addresses\<close>

lemma build_membership_single_master:
  assumes "wi = [] \<or> (\<exists>l. py_getitem wm ''launched'' = Inr l)"
  shows "fst (build_membership [(mid, mip)] wi wm w) = Inr (mip, sort (mip # map snd wi))"
  using assms
  by (cases "wi = []") (auto simp: build_membership_def Let_def)

text \<open>
  Claim C6. Take a run of \<^verbatim>\<open>setup_worker_metadata\<close> in which both launch notices came in
  and the resolver returned the masters \<open>master_instances\<close> and the workers
  \<open>worker_instances\<close>. Then
  \<^item> whatever membership the function returns, its master address is the one address of
    \<open>master_instances\<close> and its worker list is the ascending sort of that address put in
    front of the addresses of \<open>worker_instances\<close>, so the master's address is in it;
  \<^item> with exactly one master address, and no worker or a notice that carries
    \<^verbatim>\<open>launched\<close>, the function does return that membership.
\<close>

theorem membership_view_sorted:
  assumes watch: "wait_until_asg_success q r t (emit [LogInfo ''setup_worker_metadata''] w)
                    = (Inr led, w1)"
    and led: "length led = 2"
    and roles: "assign_roles led (JNull, JNull) = Inr (master_asg_message, worker_asg_message)"
    and ma: "py_getitem master_asg_message ''asg'' = Inr master_asg"
    and wa: "py_getitem worker_asg_message ''asg'' = Inr worker_asg"
    and resolve: "wait_until_instances_active [master_asg, worker_asg]
                    (t - (clock w1 - clock w)) r w1
                    = Some ((master_instances, worker_instances), w2)"
  shows "(\<forall>a ws w'. setup_worker_metadata t q s r w = Some (Inr (a, ws), w') \<longrightarrow>
            (\<exists>mid. master_instances = [(mid, a)])
            \<and> ws = sort (a # map snd worker_instances) \<and> a \<in> set ws \<and> sorted ws)
         \<and> (master_instances = [(mid, mip)]
              \<and> (worker_instances = []
                   \<or> (\<exists>l. py_getitem worker_asg_message ''launched'' = Inr l)) \<longrightarrow>
            (\<exists>w'. setup_worker_metadata t q s r w
                    = Some (Inr (mip, sort (mip # map snd worker_instances)), w')))
         \<and> (worker_instances = []
              \<or> (\<exists>l. py_getitem worker_asg_message ''launched'' = Inr l) \<longrightarrow>
            fst (build_membership [(mid, mip)] worker_instances worker_asg_message w2)
              = Inr (mip, sort (mip # map snd worker_instances)))"
proof -
  have c: "clock (emit [LogInfo ''setup_worker_metadata''] w) = clock w"
    by (simp add: emit_def)
  have run: "setup_worker_metadata t q s r w
      = Some (build_membership master_instances worker_instances worker_asg_message w2)"
    using watch led roles ma wa resolve
    by (simp add: setup_worker_metadata_def Let_def c)
  have p1: "\<forall>a ws w'. setup_worker_metadata t q s r w = Some (Inr (a, ws), w') \<longrightarrow>
            (\<exists>mid. master_instances = [(mid, a)])
            \<and> ws = sort (a # map snd worker_instances) \<and> a \<in> set ws \<and> sorted ws"
  proof (intro allI impI)
    fix a ws w'
    assume "setup_worker_metadata t q s r w = Some (Inr (a, ws), w')"
    with run have "build_membership master_instances worker_instances worker_asg_message w2
        = (Inr (a, ws), w')"
      by simp
    from build_membership_Inr [OF this] obtain mid' where
      m: "master_instances = [(mid', a)]" and ws: "ws = sort (a # map snd worker_instances)"
      by blast
    from ws have "a \<in> set ws" by (simp add: set_insort_key)
    moreover from ws have "sorted ws" by (simp only: sorted_sort)
    ultimately show "(\<exists>mid. master_instances = [(mid, a)])
            \<and> ws = sort (a # map snd worker_instances) \<and> a \<in> set ws \<and> sorted ws"
      using m ws by blast
  qed
  have p3: "worker_instances = []
              \<or> (\<exists>l. py_getitem worker_asg_message ''launched'' = Inr l) \<longrightarrow>
            fst (build_membership [(mid, mip)] worker_instances worker_asg_message w2)
              = Inr (mip, sort (mip # map snd worker_instances))"
    using build_membership_single_master by blast
  have p2: "master_instances = [(mid, mip)]
              \<and> (worker_instances = []
                   \<or> (\<exists>l. py_getitem worker_asg_message ''launched'' = Inr l)) \<longrightarrow>
            (\<exists>w'. setup_worker_metadata t q s r w
                    = Some (Inr (mip, sort (mip # map snd worker_instances)), w'))"
  proof
    assume a: "master_instances = [(mid, mip)]
              \<and> (worker_instances = []
                   \<or> (\<exists>l. py_getitem worker_asg_message ''launched'' = Inr l))"
    with p3 have "fst (build_membership master_instances worker_instances worker_asg_message w2)
              = Inr (mip, sort (mip # map snd worker_instances))"
      by blast
    then obtain w' where
      "build_membership master_instances worker_instances worker_asg_message w2
         = (Inr (mip, sort (mip # map snd worker_instances)), w')"
      by (cases "build_membership master_instances worker_instances worker_asg_message w2") auto
    with run show "\<exists>w'. setup_worker_metadata t q s r w
                    = Some (Inr (mip, sort (mip # map snd worker_instances)), w')"
      by simp
  qed
  from p1 p2 p3 show ?thesis by blast
qed

theorem membership_view_sorted_witness:
  "map_option fst (setup_worker_metadata 600 ''mq'' ''s'' ''r'' launch_world)
     = Some (Inr (''10.0.0.1'', [''10.0.0.1'', ''10.0.0.2'', ''10.0.0.3'']))
   \<and> [''10.0.0.1'', ''10.0.0.2'', ''10.0.0.3'']
       = sort (''10.0.0.1'' # map snd [(''i-3'', ''10.0.0.3''), (''i-2'', ''10.0.0.2'')])
   \<and> ''10.0.0.1'' \<in> set [''10.0.0.1'', ''10.0.0.2'', ''10.0.0.3'']
   \<and> sorted [''10.0.0.1'', ''10.0.0.2'', ''10.0.0.3'']
   \<and> (\<exists>l. py_getitem (the (body worker_notice)) ''launched'' = Inr l)
   \<and> (\<exists>w'. setup_worker_metadata 600 ''mq'' ''s'' ''r'' launch_world
             = Some (Inr (''10.0.0.1'',
                          sort (''10.0.0.1''
                                  # map snd [(''i-3'', ''10.0.0.3''), (''i-2'', ''10.0.0.2'')])),
                     w'))"
proof -
  let ?w = "launch_world"
  let ?a = "wait_until_asg_success ''mq'' ''r'' 600 (emit [LogInfo ''setup_worker_metadata''] ?w)"
  let ?w1 = "snd ?a"
  let ?mm = "the (body master_notice)"
  let ?wm = "the (body worker_notice)"
  let ?led = "[(JStr ''stack-MasterASG-1'', ?mm), (JStr ''stack-WorkerASG-1'', ?wm)]"
  let ?r = "wait_until_instances_active [JStr ''stack-MasterASG-1'', JStr ''stack-WorkerASG-1'']
              (600 - (clock ?w1 - clock ?w)) ''r'' ?w1"
  let ?mi = "[(''i-1'', ''10.0.0.1'')]"
  let ?wi = "[(''i-3'', ''10.0.0.3''), (''i-2'', ''10.0.0.2'')]"
  let ?ws = "[''10.0.0.1'', ''10.0.0.2'', ''10.0.0.3'']"
  have watch: "?a = (Inr ?led, ?w1)"
    by code_simp
  have led: "length ?led = 2"
    by simp
  have roles: "assign_roles ?led (JNull, JNull) = Inr (?mm, ?wm)"
    by code_simp
  have ma: "py_getitem ?mm ''asg'' = Inr (JStr ''stack-MasterASG-1'')"
    by code_simp
  have wa: "py_getitem ?wm ''asg'' = Inr (JStr ''stack-WorkerASG-1'')"
    by code_simp
  have resolve: "?r = Some ((?mi, ?wi), snd (the ?r))"
    by code_simp
  have launched: "\<exists>l. py_getitem ?wm ''launched'' = Inr l"
  proof -
    have "py_getitem ?wm ''launched'' = Inr (JNum 2)" by code_simp
    then show ?thesis by blast
  qed
  have res: "map_option fst (setup_worker_metadata 600 ''mq'' ''s'' ''r'' ?w)
               = Some (Inr (''10.0.0.1'', ?ws))"
    by code_simp
  then obtain w' where run: "setup_worker_metadata 600 ''mq'' ''s'' ''r'' ?w
               = Some (Inr (''10.0.0.1'', ?ws), w')"
    by (cases "setup_worker_metadata 600 ''mq'' ''s'' ''r'' ?w") auto
  note view = membership_view_sorted
    [OF watch led roles ma wa resolve, of "''s''" "''i-1''" "''10.0.0.1''"]
  from view run have v1: "?ws = sort (''10.0.0.1'' # map snd ?wi)"
      "''10.0.0.1'' \<in> set ?ws" "sorted ?ws"
    by blast+
  from view launched have v2: "\<exists>w'. setup_worker_metadata 600 ''mq'' ''s'' ''r'' ?w
             = Some (Inr (''10.0.0.1'', sort (''10.0.0.1'' # map snd ?wi)), w')"
    by blast
  from res v1 launched v2 show ?thesis
    by (intro conjI)
qed

text \<open>
  Claim C4, as the code has it. Let every poll of the queue take between 0 and \<open>L\<close>
  seconds and let the budget be at least 0. Then every sleep of
  \<^verbatim>\<open>wait_until_asg_success\<close> lasts at most 30 seconds and ends no later than the
  deadline; and when the function returns without both notices, it returns later than 30
  seconds before the deadline and at most \<open>L\<close> seconds after it. The polls start at the
  ticks 0, 30, 60, ... after the start, and the function gives up right after the last
  poll whose tick is not past the deadline.
\<close>

theorem watcher_timeout_window:
  assumes "0 \<le> timeout" "0 \<le> L" "\<forall>p\<in>set (sqs_inbox w). 0 \<le> fst p \<and> fst p \<le> L"
  shows "(\<exists>evs. trace (snd (wait_until_asg_success q r timeout w)) = trace w @ evs
            \<and> list_all (sleep_within (clock w + timeout)) evs)
         \<and> (\<forall>led. fst (wait_until_asg_success q r timeout w) = Inr led \<and> length led \<noteq> 2 \<longrightarrow>
               clock w + timeout - 30 < clock (snd (wait_until_asg_success q r timeout w))
               \<and> clock (snd (wait_until_asg_success q r timeout w)) \<le> clock w + timeout + L)"
proof -
  let ?w0 = "emit [LogEnter ''wait_until_asg_success'' timeout] w"
  have c0: "clock ?w0 = clock w"
    by (simp add: emit_def)
  have unfold: "wait_until_asg_success q r timeout w
      = asg_success_loop q (clock w) timeout (clock w) [] ?w0"
    by (simp only: wait_until_asg_success_def Let_def c0)
  have "clock ?w0 = clock w" "clock w \<le> clock w + timeout"
      "\<forall>p\<in>set (sqs_inbox ?w0). 0 \<le> fst p \<and> fst p \<le> L"
    using assms by (simp_all add: emit_def)
  from asg_success_loop_timing [OF this(1,2) assms(2) this(3), of q "[]"]
  obtain evs where
      tr: "trace (snd (asg_success_loop q (clock w) timeout (clock w) [] ?w0)) = trace ?w0 @ evs"
    and nd: "list_all (sleep_within (clock w + timeout)) evs"
    and bd: "\<forall>led'. fst (asg_success_loop q (clock w) timeout (clock w) [] ?w0) = Inr led'
                   \<and> length led' \<noteq> 2 \<longrightarrow>
              clock w + timeout - 30 < clock (snd (asg_success_loop q (clock w) timeout (clock w) [] ?w0))
              \<and> clock (snd (asg_success_loop q (clock w) timeout (clock w) [] ?w0))
                   \<le> clock w + timeout + L"
    by blast
  have "trace (snd (wait_until_asg_success q r timeout w))
          = trace w @ (LogEnter ''wait_until_asg_success'' timeout # evs)"
    using tr unfold by (simp add: emit_def)
  moreover have "list_all (sleep_within (clock w + timeout))
                   (LogEnter ''wait_until_asg_success'' timeout # evs)"
    using nd by simp
  ultimately have "\<exists>evs. trace (snd (wait_until_asg_success q r timeout w)) = trace w @ evs
            \<and> list_all (sleep_within (clock w + timeout)) evs"
    by blast
  with bd unfold show ?thesis by simp
qed

theorem watcher_timeout_window_witness:
  "(0::real) \<le> 50 \<and> (0::real) \<le> 3
   \<and> list_all (\<lambda>p. 0 \<le> fst p \<and> fst p \<le> 3) (sqs_inbox slow_queue_world)
   \<and> fst (wait_until_asg_success ''mq'' ''r'' 50 slow_queue_world) = Inr []
   \<and> clock (snd (wait_until_asg_success ''mq'' ''r'' 50 slow_queue_world)) = 33
   \<and> clock slow_queue_world + 50 - 30
        < clock (snd (wait_until_asg_success ''mq'' ''r'' 50 slow_queue_world))
   \<and> clock (snd (wait_until_asg_success ''mq'' ''r'' 50 slow_queue_world))
        \<le> clock slow_queue_world + 50 + 3
   \<and> (\<exists>evs. trace (snd (wait_until_asg_success ''mq'' ''r'' 50 slow_queue_world))
               = trace slow_queue_world @ evs
            \<and> list_all (sleep_within (clock slow_queue_world + 50)) evs)
   \<and> wait_until_asg_success ''mq'' ''r'' 5 quiet_world
        = (Inr [], quiet_world\<lparr>trace :=
             [LogEnter ''wait_until_asg_success'' 5, ReceiveMessage ''mq'' 10 60,
              LogInfo ''timeout while checking asg status'']\<rparr>)"
proof -
  have h: "(0::real) \<le> 50" "(0::real) \<le> 3"
    by simp_all
  have l: "list_all (\<lambda>p. 0 \<le> fst p \<and> fst p \<le> 3) (sqs_inbox slow_queue_world)"
    by (simp add: slow_queue_world_def quiet_world_def)
  then have l': "\<forall>p\<in>set (sqs_inbox slow_queue_world). 0 \<le> fst p \<and> fst p \<le> 3"
    by (simp add: list_all_iff)
  have r: "fst (wait_until_asg_success ''mq'' ''r'' 50 slow_queue_world) = Inr []"
    by code_simp
  have c: "clock (snd (wait_until_asg_success ''mq'' ''r'' 50 slow_queue_world)) = 33"
    by code_simp
  have five: "wait_until_asg_success ''mq'' ''r'' 5 quiet_world
        = (Inr [], quiet_world\<lparr>trace :=
             [LogEnter ''wait_until_asg_success'' 5, ReceiveMessage ''mq'' 10 60,
              LogInfo ''timeout while checking asg status'']\<rparr>)"
    by code_simp
  note win = watcher_timeout_window [OF h l', of "''mq''" "''r''"]
  from win r have b: "clock slow_queue_world + 50 - 30
        < clock (snd (wait_until_asg_success ''mq'' ''r'' 50 slow_queue_world))"
      "clock (snd (wait_until_asg_success ''mq'' ''r'' 50 slow_queue_world))
        \<le> clock slow_queue_world + 50 + 3"
    by simp_all
  from win have s: "\<exists>evs. trace (snd (wait_until_asg_success ''mq'' ''r'' 50 slow_queue_world))
               = trace slow_queue_world @ evs
            \<and> list_all (sleep_within (clock slow_queue_world + 50)) evs"
    by blast
  from h l r c b s five show ?thesis
    by (intro conjI)
qed

text \<open>
  Against claim C4 as stated: with a budget of 50 seconds and a queue that stays empty the
  function returns the timeout at second 30, twenty seconds before the budget boundary.
\<close>

theorem watcher_gives_up_before_budget:
  "wait_until_asg_success ''mq'' ''r'' 50 quiet_world
     = (Inr [], quiet_world\<lparr>clock := 30, trace :=
          [LogEnter ''wait_until_asg_success'' 50, ReceiveMessage ''mq'' 10 60,
           Sleep 0 30, ReceiveMessage ''mq'' 10 60,
           LogInfo ''timeout while checking asg status'']\<rparr>)
   \<and> clock (snd (wait_until_asg_success ''mq'' ''r'' 50 quiet_world)) < clock quiet_world + 50"
  by code_simp

end
